theory Spec2Isabelle
  imports Complex_Main
begin

section \<open>Python values\<close>

text \<open>
  The parser works on the values that \<^verbatim>\<open>json.loads\<close> returns and builds its decks from the
  same kinds of value: \<^verbatim>\<open>None\<close>, booleans, unbounded integers, floats, strings, lists and
  dictionaries. A float is kept by its numeric value (or as one of the three non-finite
  floats); the only thing the code ever asks of a float is whether it is zero.

  A dictionary is an association list read with \<open>map_of\<close>: the first binding of a key is
  the dictionary's value for it.
\<close>

datatype pyfloat = Finite rat | PosInf | NegInf | NaN

datatype pyval =
    PNone
  | PBool bool
  | PInt int
  | PFloat pyfloat
  | PStr string
  | PList "pyval list"
  | PDict "(string \<times> pyval) list"

type_synonym pydict = "(string \<times> pyval) list"

text \<open>Truth value of an object, as \<^verbatim>\<open>x or y\<close> and \<^verbatim>\<open>if x:\<close> test it.\<close>

fun truthy :: "pyval \<Rightarrow> bool" where
  "truthy PNone = False"
| "truthy (PBool b) = b"
| "truthy (PInt i) = (i \<noteq> 0)"
| "truthy (PFloat (Finite r)) = (r \<noteq> 0)"
| "truthy (PFloat _) = True"
| "truthy (PStr s) = (s \<noteq> [])"
| "truthy (PList xs) = (xs \<noteq> [])"
| "truthy (PDict kvs) = (kvs \<noteq> [])"

text \<open>\<^verbatim>\<open>a or b\<close>: the first operand when it is true, the second otherwise.\<close>

definition py_or :: "pyval \<Rightarrow> pyval \<Rightarrow> pyval" where
  "py_or a b = (if truthy a then a else b)"

text \<open>\<^verbatim>\<open>key in d\<close>, \<^verbatim>\<open>d.get(key)\<close> and \<^verbatim>\<open>d.get(key, default)\<close> on a dictionary.\<close>

definition py_in :: "string \<Rightarrow> pydict \<Rightarrow> bool" where
  "py_in key d = (map_of d key \<noteq> None)"

definition py_get :: "pydict \<Rightarrow> string \<Rightarrow> pyval" where
  "py_get d key = (case map_of d key of None \<Rightarrow> PNone | Some v \<Rightarrow> v)"

definition py_get_default :: "pydict \<Rightarrow> string \<Rightarrow> pyval \<Rightarrow> pyval" where
  "py_get_default d key dflt = (case map_of d key of None \<Rightarrow> dflt | Some v \<Rightarrow> v)"

text \<open>
  \<^verbatim>\<open>s[a:b]\<close>: a negative bound counts from the end, and both bounds are clipped to the
  string.
\<close>

definition slice_bound :: "nat \<Rightarrow> int \<Rightarrow> nat" where
  "slice_bound n i = (if i < 0 then nat (max 0 (i + int n)) else min (nat i) n)"

definition py_slice :: "'a list \<Rightarrow> int \<Rightarrow> int \<Rightarrow> 'a list" where
  "py_slice s a b =
     (let lo = slice_bound (length s) a; hi = slice_bound (length s) b
      in take (hi - lo) (drop lo s))"

definition py_slice_from :: "'a list \<Rightarrow> int \<Rightarrow> 'a list" where
  "py_slice_from s a = drop (slice_bound (length s) a) s"

section \<open>Exceptions\<close>

text \<open>
  The code tells three kinds of exception apart: \<^verbatim>\<open>json.JSONDecodeError\<close>, which
  \<^verbatim>\<open>extract_json_blocks\<close> catches, \<^verbatim>\<open>FileNotFoundError\<close>, which \<^verbatim>\<open>parse_file\<close> catches
  first, and every other \<^verbatim>\<open>Exception\<close> (a \<^verbatim>\<open>ValueError\<close> that is no \<^verbatim>\<open>JSONDecodeError\<close>,
  \<^verbatim>\<open>OSError\<close>, \<^verbatim>\<open>RecursionError\<close>, \<^verbatim>\<open>OverflowError\<close>, ...). A computation that may raise
  returns a sum, with the exception on the left.
\<close>

datatype py_exception = FileNotFoundError | JSONDecodeError | OtherException

section \<open>LogParser\<close>

subsection \<open>extract_json_blocks\<close>

text \<open>
  The loop of \<^verbatim>\<open>extract_json_blocks\<close> keeps three variables: \<^verbatim>\<open>brace_level\<close>,
  \<^verbatim>\<open>start_idx\<close> (with \<open>-1\<close> for "no block open") and the list \<^verbatim>\<open>json_blocks\<close>.

  \<^verbatim>\<open>json.loads\<close> belongs to the Python standard library, so the decoder is a parameter
  \<open>loads\<close> of the model. Every text handed to it starts with an opening brace, where a
  successful decode is a dictionary, so the decoder returns the dictionary's items or
  the exception it raises. The loop catches \<^verbatim>\<open>JSONDecodeError\<close> only: any other exception
  of the decoder (it raises \<^verbatim>\<open>ValueError\<close> on an integer of more than 4300 digits and
  \<^verbatim>\<open>RecursionError\<close> on deep nesting) ends the loop and leaves the function.
\<close>

record scan_state =
  brace_level :: int
  start_idx :: int
  json_blocks :: "pydict list"

definition scan_init :: scan_state where
  "scan_init = \<lparr>brace_level = 0, start_idx = -1, json_blocks = []\<rparr>"

definition scan_step ::
  "(string \<Rightarrow> py_exception + pydict) \<Rightarrow> string \<Rightarrow> scan_state \<Rightarrow> nat \<times> char \<Rightarrow>
   py_exception + scan_state" where
  "scan_step loads log_content st ic =
     (let i = fst ic; c = snd ic in
      if c = CHR ''{'' then
        Inr (st\<lparr>start_idx := (if brace_level st = 0 then int i else start_idx st),
                brace_level := brace_level st + 1\<rparr>)
      else if c = CHR ''}'' then
        (let lvl = brace_level st - 1 in
         if lvl = 0 \<and> start_idx st \<noteq> -1 then
           (let json_str = py_slice log_content (start_idx st) (int i + 1) in
            case loads json_str of
              Inr json_obj \<Rightarrow>
                Inr (st\<lparr>brace_level := lvl, json_blocks := json_blocks st @ [json_obj],
                        start_idx := -1\<rparr>)
            | Inl e \<Rightarrow>
                if e = JSONDecodeError then Inr (st\<lparr>brace_level := lvl, start_idx := -1\<rparr>)
                else Inl e)
         else Inr (st\<lparr>brace_level := lvl\<rparr>))
      else Inr st)"

text \<open>The \<^verbatim>\<open>for\<close> loop over \<^verbatim>\<open>enumerate(log_content)\<close>: an exception ends it.\<close>

fun scan_from ::
  "(string \<Rightarrow> py_exception + pydict) \<Rightarrow> string \<Rightarrow> scan_state \<Rightarrow> (nat \<times> char) list \<Rightarrow>
   py_exception + scan_state" where
  "scan_from loads log_content st [] = Inr st"
| "scan_from loads log_content st (ic # ics) =
     (case scan_step loads log_content st ic of
        Inl e \<Rightarrow> Inl e
      | Inr st' \<Rightarrow> scan_from loads log_content st' ics)"

definition scan_loop ::
  "(string \<Rightarrow> py_exception + pydict) \<Rightarrow> string \<Rightarrow> py_exception + scan_state" where
  "scan_loop loads log_content = scan_from loads log_content scan_init (enumerate 0 log_content)"

definition extract_json_blocks ::
  "(string \<Rightarrow> py_exception + pydict) \<Rightarrow> string \<Rightarrow> py_exception + pydict list" where
  "extract_json_blocks loads log_content =
     (case scan_loop loads log_content of
        Inl e \<Rightarrow> Inl e
      | Inr st \<Rightarrow> Inr (json_blocks st))"

subsection \<open>is_deck_data and extract_decks\<close>

definition deck_keys :: "string list" where
  "deck_keys =
     [''mainDeck'', ''sideboard'', ''deckId'', ''name'', ''decks'', ''deckList'', ''mainBoard'']"

definition is_deck_data :: "pydict \<Rightarrow> bool" where
  "is_deck_data json_obj = list_ex (\<lambda>key. py_in key json_obj) deck_keys"

text \<open>
  \<^verbatim>\<open>if 'decks' in json_obj: decks_data = json_obj['decks']\<close> is the \<open>Some\<close> branch of the
  lookup; a value that is neither a list nor a dictionary adds nothing.
\<close>

definition extract_decks :: "pydict \<Rightarrow> pyval list" where
  "extract_decks json_obj =
     (case map_of json_obj ''decks'' of
        Some decks_data \<Rightarrow>
          (case decks_data of
             PList ds \<Rightarrow> ds
           | PDict d \<Rightarrow> [PDict d]
           | _ \<Rightarrow> [])
      | None \<Rightarrow>
          if py_in ''mainDeck'' json_obj \<or> py_in ''mainBoard'' json_obj
          then [PDict json_obj] else [])"

subsection \<open>parse_deck_list\<close>

text \<open>
  The dictionary appended for one card \<open>crd\<close> (the source's \<^verbatim>\<open>card\<close>) of a main deck or
  sideboard list.
\<close>

definition card_entry :: "pydict \<Rightarrow> pyval" where
  "card_entry crd =
     PDict [(''card_id'', py_or (py_get crd ''cardId'') (py_get crd ''id'')),
            (''quantity'', py_get_default crd ''quantity'' (PInt 1)),
            (''name'', py_get_default crd ''name'' (PStr ''Unknown''))]"

text \<open>\<^verbatim>\<open>for card in cards: if isinstance(card, dict): append(...)\<close>\<close>

fun card_entries :: "pyval list \<Rightarrow> pyval list" where
  "card_entries [] = []"
| "card_entries (PDict crd # cards) = card_entry crd # card_entries cards"
| "card_entries (_ # cards) = card_entries cards"

text \<open>
  \<^verbatim>\<open>if key in deck_data: v = deck_data[key]; if isinstance(v, list): for card in v: ...\<close>
\<close>

definition card_section :: "pydict \<Rightarrow> string \<Rightarrow> pyval list" where
  "card_section deck_data key =
     (case map_of deck_data key of
        Some (PList cards) \<Rightarrow> card_entries cards
      | _ \<Rightarrow> [])"

definition commander_entry :: "pyval \<Rightarrow> pyval" where
  "commander_entry card_id =
     PDict [(''card_id'', card_id), (''quantity'', PInt 1), (''name'', PStr ''Unknown'')]"

definition commander_section :: "pydict \<Rightarrow> pyval list" where
  "commander_section deck_data =
     (case map_of deck_data ''commandZoneGRPIds'' of
        Some (PList commanders) \<Rightarrow> map commander_entry commanders
      | _ \<Rightarrow> [])"

definition main_key :: "pydict \<Rightarrow> string" where
  "main_key deck_data = (if py_in ''mainDeck'' deck_data then ''mainDeck'' else ''mainBoard'')"

text \<open>
  \<open>now\<close> is the text of \<^verbatim>\<open>datetime.now().isoformat()\<close>; the callers below pass one
  reading of the clock for all the decks of a call. A \<open>deck_data\<close> that is not a
  dictionary has no \<^verbatim>\<open>get\<close>: the \<^verbatim>\<open>AttributeError\<close> is caught and the result is \<^verbatim>\<open>None\<close>.
  On a dictionary nothing in the body can raise.
\<close>

fun parse_deck_list :: "string \<Rightarrow> pyval \<Rightarrow> pydict option" where
  "parse_deck_list now (PDict deck_data) =
     Some [(''id'', py_or (py_get deck_data ''id'')
                     (py_or (py_get deck_data ''deckId'') (py_get deck_data ''deckID''))),
           (''name'', py_or (py_get deck_data ''name'')
                       (py_or (py_get deck_data ''deckName'') (PStr ''Unnamed Deck''))),
           (''format'', py_or (py_get deck_data ''format'') (PStr ''unknown'')),
           (''description'', py_get_default deck_data ''description'' (PStr [])),
           (''main_deck'', PList (card_section deck_data (main_key deck_data))),
           (''sideboard'', PList (card_section deck_data ''sideboard'')),
           (''commander'', PList (commander_section deck_data)),
           (''timestamp'', PStr now)]"
| "parse_deck_list now _ = None"

subsection \<open>parse_log_chunk and parse_file\<close>

text \<open>
  The body of the loops of \<^verbatim>\<open>parse_log_chunk\<close>: what one raw deck and what one decoded
  block contribute to the result.
\<close>

definition parsed_deck :: "string \<Rightarrow> pyval \<Rightarrow> pydict list" where
  "parsed_deck now deck_data =
     (case parse_deck_list now deck_data of
        Some deck \<Rightarrow> if truthy (PDict deck) then [deck] else []
      | None \<Rightarrow> [])"

definition decks_of_block :: "string \<Rightarrow> pydict \<Rightarrow> pydict list" where
  "decks_of_block now json_obj =
     (if is_deck_data json_obj
      then concat (map (parsed_deck now) (extract_decks json_obj))
      else [])"

text \<open>
  An exception of \<^verbatim>\<open>extract_json_blocks\<close> is not caught here. The loops over the blocks
  raise nothing: \<^verbatim>\<open>parse_deck_list\<close> catches its own exceptions.
\<close>

definition parse_log_chunk ::
  "(string \<Rightarrow> py_exception + pydict) \<Rightarrow> string \<Rightarrow> string \<Rightarrow> int \<Rightarrow>
   py_exception + pydict list" where
  "parse_log_chunk loads now log_content start_pos =
     (let chunk = py_slice_from log_content start_pos in
      case extract_json_blocks loads chunk of
        Inl e \<Rightarrow> Inl e
      | Inr blocks \<Rightarrow> Inr (concat (map (decks_of_block now) blocks)))"

text \<open>
  The file system is a function from paths to what \<^verbatim>\<open>open\<close> gives: the text of the
  file, \<^verbatim>\<open>FileNotFoundError\<close>, or some other exception. The file is taken to hold plain
  single-byte text, so that an offset into the file is an index into the text.

  \<^verbatim>\<open>f.seek\<close>, \<^verbatim>\<open>f.read()\<close> and \<^verbatim>\<open>f.tell()\<close> are \<open>read_from\<close>. The position handed to
  \<^verbatim>\<open>seek\<close> is a cookie of the text layer. A negative one raises \<^verbatim>\<open>ValueError\<close>. A cookie
  up to the largest offset that the file can be positioned at is a plain offset: every
  offset within the file is one, and beyond the end those up to the limit \<open>max_offset\<close> of
  the file system, which is below \<open>2^63\<close>. A position beyond the end is accepted:
  \<^verbatim>\<open>f.read()\<close> is then empty and \<^verbatim>\<open>f.tell()\<close> is the position sought. Any other cookie
  below \<open>2^64\<close> makes the operating system refuse the offset (\<^verbatim>\<open>OSError\<close>). From \<open>2^64\<close> on,
  the low 64 bits of the cookie are the offset and the bits above them are a saved state
  of the decoder (a pending carriage return, characters to skip), which the text layer
  restores before it reads: \<open>restore_decoder\<close>, a parameter, gives what \<^verbatim>\<open>f.read()\<close> then
  returns for this state and the text from the offset on, or the exception raised
  (\<^verbatim>\<open>OSError\<close> when the state cannot be restored, \<^verbatim>\<open>OverflowError\<close> when the cookie has
  more than 21 bytes). After a read to the end of the file, \<^verbatim>\<open>f.tell()\<close> is the offset of
  the end, or the offset sought when that lies beyond.
\<close>

record text_io =
  max_offset :: nat
  restore_decoder :: "int \<Rightarrow> string \<Rightarrow> py_exception + string"

definition seekable :: "text_io \<Rightarrow> string \<Rightarrow> nat \<Rightarrow> bool" where
  "seekable io content pos \<longleftrightarrow> pos \<le> max (length content) (min (max_offset io) (2 ^ 63 - 1))"

definition read_from :: "text_io \<Rightarrow> string \<Rightarrow> int \<Rightarrow> py_exception + string \<times> int" where
  "read_from io content cookie =
     (if cookie < 0 then Inl OtherException
      else if seekable io content (nat cookie)
        then Inr (drop (nat cookie) content, max cookie (int (length content)))
      else if cookie < 2 ^ 64 then Inl OtherException
      else
        (let start_pos = nat (cookie mod 2 ^ 64); dec_state = cookie div 2 ^ 64 in
         if \<not> seekable io content start_pos then Inl OtherException
         else
           case restore_decoder io dec_state (drop start_pos content) of
             Inl e \<Rightarrow> Inl e
           | Inr restored \<Rightarrow> Inr (restored, max (int start_pos) (int (length content)))))"

text \<open>
  \<^verbatim>\<open>parse_file\<close>: both handlers return \<^verbatim>\<open>([], from_position)\<close>, whatever was raised by
  \<^verbatim>\<open>open\<close>, by \<^verbatim>\<open>seek\<close> and \<^verbatim>\<open>read\<close>, or by \<^verbatim>\<open>parse_log_chunk\<close>.
\<close>

definition parse_file ::
  "(string \<Rightarrow> py_exception + pydict) \<Rightarrow> string \<Rightarrow> text_io \<Rightarrow>
   (string \<Rightarrow> py_exception + string) \<Rightarrow> string \<Rightarrow> int \<Rightarrow> pydict list \<times> int" where
  "parse_file loads now io fs file_path from_position =
     (case fs file_path of
        Inl e \<Rightarrow> ([], from_position)
      | Inr file_text \<Rightarrow>
          (case read_from io file_text from_position of
             Inl e \<Rightarrow> ([], from_position)
           | Inr (content, new_position) \<Rightarrow>
               (case parse_log_chunk loads now content 0 of
                  Inl e \<Rightarrow> ([], from_position)
                | Inr decks \<Rightarrow> (decks, new_position))))"

section \<open>MTGArenaDaemon\<close>

text \<open>Decimal text of a number, as \<^verbatim>\<open>str\<close> gives it.\<close>

fun str_of_nat :: "nat \<Rightarrow> string" where
  "str_of_nat n =
     (if n < 10 then [''0123456789'' ! n]
      else str_of_nat (n div 10) @ [''0123456789'' ! (n mod 10)])"

declare str_of_nat.simps [simp del]

definition str_of_int :: "int \<Rightarrow> string" where
  "str_of_int i = (if i < 0 then CHR ''-'' # str_of_nat (nat (- i)) else str_of_nat (nat i))"

text \<open>
  What an f-string puts in for a value. The text of a float, a list or a dictionary is
  Python's \<^verbatim>\<open>repr\<close> of it, which is taken as the parameter \<open>repr\<close>.
\<close>

fun py_str :: "(pyval \<Rightarrow> string) \<Rightarrow> pyval \<Rightarrow> string" where
  "py_str repr PNone = ''None''"
| "py_str repr (PBool b) = (if b then ''True'' else ''False'')"
| "py_str repr (PInt i) = str_of_int i"
| "py_str repr (PStr s) = s"
| "py_str repr v = repr v"

text \<open>\<^verbatim>\<open>len(x)\<close>; \<open>None\<close> is the \<^verbatim>\<open>TypeError\<close> of an object without a length.\<close>

fun py_len :: "pyval \<Rightarrow> nat option" where
  "py_len (PStr s) = Some (length s)"
| "py_len (PList xs) = Some (length xs)"
| "py_len (PDict kvs) = Some (length kvs)"
| "py_len _ = None"

definition get_deck_id :: "(pyval \<Rightarrow> string) \<Rightarrow> pydict \<Rightarrow> string option" where
  "get_deck_id repr deck =
     (let deck_id = py_get_default deck ''id'' (PStr []);
          deck_name = py_get_default deck ''name'' (PStr [])
      in case py_len (py_get_default deck ''main_deck'' (PList [])) of
           None \<Rightarrow> None
         | Some main_count \<Rightarrow>
             Some (py_str repr deck_id @ ''_'' @ py_str repr deck_name @ ''_''
                   @ str_of_nat main_count))"

text \<open>
  The daemon's state: the read position, the set \<^verbatim>\<open>exported_decks\<close> of fingerprints, and
  the decks handed to \<^verbatim>\<open>exporter.export_deck\<close> so far, in order. \<^verbatim>\<open>export_deck\<close> catches
  its own exceptions. An exception of \<^verbatim>\<open>get_deck_id\<close>, or the \<^verbatim>\<open>KeyError\<close> of \<^verbatim>\<open>deck['name']\<close>
  in the log message of either branch, leaves the loop: the handler of
  \<^verbatim>\<open>process_log_file\<close> logs it, and the decks after it are not looked at.
\<close>

record daemon_state =
  last_position :: int
  exported_decks :: "string set"
  exported :: "pydict list"

fun export_new :: "(pyval \<Rightarrow> string) \<Rightarrow> daemon_state \<Rightarrow> pydict list \<Rightarrow> daemon_state" where
  "export_new repr st [] = st"
| "export_new repr st (deck # decks) =
     (case get_deck_id repr deck of
        None \<Rightarrow> st
      | Some deck_id \<Rightarrow>
          if \<not> py_in ''name'' deck then st
          else if deck_id \<notin> exported_decks st
          then export_new repr
                 (st\<lparr>exported := exported st @ [deck],
                    exported_decks := insert deck_id (exported_decks st)\<rparr>) decks
          else export_new repr st decks)"


definition process_log_file ::
  "(string \<Rightarrow> py_exception + pydict) \<Rightarrow> string \<Rightarrow> text_io \<Rightarrow>
   (string \<Rightarrow> py_exception + string) \<Rightarrow> (pyval \<Rightarrow> string) \<Rightarrow> bool \<Rightarrow> string \<Rightarrow>
   daemon_state \<Rightarrow> daemon_state" where
  "process_log_file loads now io fs repr auto_export log_file_path st =
     (case parse_file loads now io fs log_file_path (last_position st) of
        (decks, new_position) \<Rightarrow>
          (let st' = st\<lparr>last_position := new_position\<rparr>
           in if auto_export then export_new repr st' decks else st'))"

section \<open>Notions used to state the properties\<close>

text \<open>
  The brace depth of a text: the number of opening braces minus the number of closing
  braces. \<open>stays_open d cs\<close> says that reading \<open>cs\<close> from depth \<open>d\<close> leaves the depth above
  zero after every character: no closing brace of \<open>cs\<close> brings it back to zero.
\<close>

fun brace_depth :: "string \<Rightarrow> int" where
  "brace_depth [] = 0"
| "brace_depth (c # cs) =
     (if c = CHR ''{'' then 1 else if c = CHR ''}'' then -1 else 0) + brace_depth cs"

fun stays_open :: "int \<Rightarrow> string \<Rightarrow> bool" where
  "stays_open d [] = True"
| "stays_open d (c # cs) =
     (0 < d + brace_depth [c] \<and> stays_open (d + brace_depth [c]) cs)"

text \<open>
  A balanced block is an opening brace, a body that stays inside it (\<open>stays_open 1 body\<close>)
  and comes back to its depth (\<open>brace_depth body = 0\<close>), and the closing brace: the body
  may hold nested blocks. Text is free of JSON for a decoder when it is made of characters
  other than braces and of balanced blocks that the decoder rejects with
  \<^verbatim>\<open>JSONDecodeError\<close>. \<open>junk_text loads d blk cs\<close> reads such a text: \<open>d\<close> is the depth
  inside the block being read and \<open>blk\<close> the text of that block so far.
\<close>

fun junk_text ::
  "(string \<Rightarrow> py_exception + pydict) \<Rightarrow> int \<Rightarrow> string \<Rightarrow> string \<Rightarrow> bool" where
  "junk_text loads d blk [] = (d = 0)"
| "junk_text loads d blk (c # cs) =
     (if d = 0 then
        (if c = CHR ''}'' then False
         else if c = CHR ''{'' then junk_text loads 1 [c] cs
         else junk_text loads 0 [] cs)
      else if d + brace_depth [c] = 0 then
        loads (blk @ [c]) = Inl JSONDecodeError \<and> junk_text loads 0 [] cs
      else junk_text loads (d + brace_depth [c]) (blk @ [c]) cs)"

definition non_json :: "(string \<Rightarrow> py_exception + pydict) \<Rightarrow> string \<Rightarrow> bool" where
  "non_json loads t = junk_text loads 0 [] t"

text \<open>
  Reading a result: the list stored under a key of a dictionary (empty when the key is
  missing or holds no list), the dictionaries among the elements of a list, in their
  order, and the \<^verbatim>\<open>quantity\<close> of a card entry.
\<close>

definition entries_of :: "pydict \<Rightarrow> string \<Rightarrow> pyval list" where
  "entries_of d key = (case map_of d key of Some (PList xs) \<Rightarrow> xs | _ \<Rightarrow> [])"

fun mappings_of :: "pyval list \<Rightarrow> pydict list" where
  "mappings_of [] = []"
| "mappings_of (PDict d # xs) = d # mappings_of xs"
| "mappings_of (_ # xs) = mappings_of xs"

fun quantity_of :: "pyval \<Rightarrow> pyval option" where
  "quantity_of (PDict entry) = map_of entry ''quantity''"
| "quantity_of _ = None"

text \<open>
  Sample data for the concrete evaluations below. The decoder is \<^verbatim>\<open>json.loads\<close> cut down
  to the texts listed and to one object whose integer has 4301 digits, on which
  \<^verbatim>\<open>json.loads\<close> raises \<^verbatim>\<open>ValueError\<close>. The text layer restores a pending carriage return
  (state 1), which \<^verbatim>\<open>read\<close> gives back as a newline before the text. The file system holds
  one log file.
\<close>

definition big_int_object :: string where
  \<open>big_int_object = ''{"id":'' @ replicate 4301 (CHR ''1'') @ ''}''\<close>

definition example_loads :: "string \<Rightarrow> py_exception + pydict" where
  \<open>example_loads s =
     (if s = big_int_object then Inl OtherException
      else case map_of
        [(''{"a":1}'', [(''a'', PInt 1)]),
         (''{"b":2}'', [(''b'', PInt 2)]),
         (''{"mainDeck":[]}'', [(''mainDeck'', PList [])]),
         (''{"mainDeck":[{"cardId":1}]}'',
            [(''mainDeck'', PList [PDict [(''cardId'', PInt 1)]])]),
         (''{"name":"a}b"}'', [(''name'', PStr ''a}b'')])] s of
        Some json_obj \<Rightarrow> Inr json_obj
      | None \<Rightarrow> Inl JSONDecodeError)\<close>

definition example_io :: text_io where
  "example_io =
     \<lparr>max_offset = 2 ^ 40,
      restore_decoder =
        (\<lambda>dec_state rest. if dec_state = 1 then Inr (CHR 0x0A # rest) else Inl OtherException)\<rparr>"

definition example_fs :: "string \<Rightarrow> py_exception + string" where
  \<open>example_fs file_path =
     (if file_path = ''Player.log'' then Inr ''[12:34] {"mainDeck":[]} loaded''
      else Inl FileNotFoundError)\<close>

text \<open>
  Two decks as \<^verbatim>\<open>parse_deck_list\<close> builds them, with the same id, the same name and one
  card each, but not the same card; and a daemon that has exported nothing yet.
\<close>

definition example_deck_a :: pydict where
  "example_deck_a =
     [(''id'', PStr ''d1''), (''name'', PStr ''Test''), (''format'', PStr ''standard''),
      (''description'', PStr []),
      (''main_deck'', PList [PDict [(''card_id'', PInt 70001), (''quantity'', PInt 4),
                                    (''name'', PStr ''Forest'')]]),
      (''sideboard'', PList []), (''commander'', PList []),
      (''timestamp'', PStr ''12:34:56'')]"

definition example_deck_b :: pydict where
  "example_deck_b =
     [(''id'', PStr ''d1''), (''name'', PStr ''Test''), (''format'', PStr ''standard''),
      (''description'', PStr []),
      (''main_deck'', PList [PDict [(''card_id'', PInt 80001), (''quantity'', PInt 2),
                                    (''name'', PStr ''Mountain'')]]),
      (''sideboard'', PList []), (''commander'', PList []),
      (''timestamp'', PStr ''12:34:57'')]"

definition daemon_init :: daemon_state where
  "daemon_init = \<lparr>last_position = 0, exported_decks = {}, exported = []\<rparr>"

lemmas scan_defs =
  extract_json_blocks_def scan_loop_def scan_step_def scan_init_def py_slice_def
  py_slice_from_def slice_bound_def

lemmas parse_defs =
  parse_log_chunk_def decks_of_block_def parsed_deck_def is_deck_data_def deck_keys_def
  extract_decks_def card_section_def commander_section_def main_key_def card_entry_def
  commander_entry_def py_in_def py_get_def py_get_default_def py_or_def

lemmas file_defs =
  parse_file_def read_from_def seekable_def example_fs_def example_io_def

section \<open>The brace scan\<close>

lemma brace_depth_append: "brace_depth (xs @ ys) = brace_depth xs + brace_depth ys"
  by (induction xs) auto

lemma stays_open_iff:
  "stays_open d cs \<longleftrightarrow> (\<forall>n. 0 < n \<and> n \<le> length cs \<longrightarrow> 0 < d + brace_depth (take n cs))"
proof (induction cs arbitrary: d)
  case Nil
  then show ?case by simp
next
  case (Cons c cs)
  show ?case
  proof
    assume l: "stays_open d (c # cs)"
    show "\<forall>n. 0 < n \<and> n \<le> length (c # cs) \<longrightarrow> 0 < d + brace_depth (take n (c # cs))"
    proof (intro allI impI)
      fix n assume n: "0 < n \<and> n \<le> length (c # cs)"
      then obtain m where m: "n = Suc m" by (cases n) auto
      show "0 < d + brace_depth (take n (c # cs))"
      proof (cases "m = 0")
        case True
        with l m show ?thesis by simp
      next
        case False
        with l n m Cons.IH [of "d + brace_depth [c]"] show ?thesis
          by (simp add: add.assoc)
      qed
    qed
  next
    assume r: "\<forall>n. 0 < n \<and> n \<le> length (c # cs) \<longrightarrow> 0 < d + brace_depth (take n (c # cs))"
    from r [rule_format, of 1] have one: "0 < d + brace_depth [c]" by simp
    have "\<forall>n. 0 < n \<and> n \<le> length cs \<longrightarrow> 0 < d + brace_depth [c] + brace_depth (take n cs)"
    proof (intro allI impI)
      fix n assume "0 < n \<and> n \<le> length cs"
      with r [rule_format, of "Suc n"] show "0 < d + brace_depth [c] + brace_depth (take n cs)"
        by (simp add: add.assoc)
    qed
    with one Cons.IH [of "d + brace_depth [c]"] show "stays_open d (c # cs)"
      by simp
  qed
qed

lemma stays_open_mono: "stays_open d cs \<Longrightarrow> d \<le> d' \<Longrightarrow> stays_open d' cs"
  by (induction cs arbitrary: d d') auto

lemma brace_free_depth:
  "CHR ''{'' \<notin> set cs \<Longrightarrow> CHR ''}'' \<notin> set cs \<Longrightarrow> brace_depth cs = 0"
  by (induction cs) auto

lemma brace_free_stays_open:
  "CHR ''{'' \<notin> set cs \<Longrightarrow> CHR ''}'' \<notin> set cs \<Longrightarrow> 0 < d \<Longrightarrow> stays_open d cs"
  by (induction cs) auto

text \<open>The loop over a text in two parts.\<close>

lemma scan_from_append:
  "scan_from loads content st (xs @ ys) =
     (case scan_from loads content st xs of
        Inl e \<Rightarrow> Inl e
      | Inr st' \<Rightarrow> scan_from loads content st' ys)"
  by (induction xs arbitrary: st) (auto split: sum.splits)

lemma scan_from_chain:
  assumes "scan_from loads content st (enumerate k xs) = Inr st'"
  shows "scan_from loads content st (enumerate k (xs @ ys))
           = scan_from loads content st' (enumerate (k + length xs) ys)"
  using assms by (simp add: enumerate_append_eq scan_from_append)

lemma scan_from_raise:
  assumes "scan_from loads content st (enumerate k xs) = Inl e"
  shows "scan_from loads content st (enumerate k (xs @ ys)) = Inl e"
  using assms by (simp add: enumerate_append_eq scan_from_append)

text \<open>The level is the brace depth of the text read so far, whatever else happens.\<close>

lemma scan_step_level:
  "scan_step loads content st (i, c) = Inr st' \<Longrightarrow>
   brace_level st' = brace_level st + brace_depth [c]"
  by (auto simp: scan_step_def Let_def split: sum.splits if_splits)

lemma scan_level:
  "scan_from loads content st (enumerate k cs) = Inr st' \<Longrightarrow>
   brace_level st' = brace_level st + brace_depth cs"
proof (induction cs arbitrary: st k)
  case Nil
  then show ?case by simp
next
  case (Cons c cs)
  from Cons.prems obtain st1 where s1: "scan_step loads content st (k, c) = Inr st1"
    and rest: "scan_from loads content st1 (enumerate (Suc k) cs) = Inr st'"
    by (auto split: sum.splits)
  from Cons.IH [OF rest] scan_step_level [OF s1] show ?case
    by simp
qed

text \<open>Characters other than braces leave the state alone.\<close>

lemma scan_step_inert:
  "c \<noteq> CHR ''{'' \<Longrightarrow> c \<noteq> CHR ''}'' \<Longrightarrow> scan_step loads content st (i, c) = Inr st"
  by (simp add: scan_step_def)

lemma scan_inert:
  "CHR ''{'' \<notin> set cs \<Longrightarrow> CHR ''}'' \<notin> set cs \<Longrightarrow>
   scan_from loads content st (enumerate k cs) = Inr st"
  by (induction cs arbitrary: k) (auto simp: scan_step_inert)

text \<open>
  The decoder is only called by a closing brace that brings the level to zero. Above
  level zero nothing changes but the level; and text without a closing brace, or text
  that keeps the level above zero, neither adds a block nor raises.
\<close>

lemma scan_step_deep:
  assumes "0 < brace_level st" "0 < brace_level st + brace_depth [c]"
  shows "scan_step loads content st (i, c)
           = Inr (st\<lparr>brace_level := brace_level st + brace_depth [c]\<rparr>)"
  using assms by (auto simp: scan_step_def Let_def)

lemma scan_deep:
  assumes "0 < brace_level st" "stays_open (brace_level st) cs"
  shows "scan_from loads content st (enumerate k cs)
           = Inr (st\<lparr>brace_level := brace_level st + brace_depth cs\<rparr>)"
  using assms
proof (induction cs arbitrary: st k)
  case Nil
  then show ?case by simp
next
  case (Cons c cs)
  let ?st = "st\<lparr>brace_level := brace_level st + brace_depth [c]\<rparr>"
  from Cons.prems have pos: "0 < brace_level st + brace_depth [c]"
    and rest: "stays_open (brace_level st + brace_depth [c]) cs"
    by simp_all
  from scan_step_deep [OF Cons.prems(1) pos]
  have s1: "scan_step loads content st (k, c) = Inr ?st" .
  have "scan_from loads content ?st (enumerate (Suc k) cs)
          = Inr (?st\<lparr>brace_level := brace_level ?st + brace_depth cs\<rparr>)"
    using pos rest by (intro Cons.IH) simp_all
  with s1 show ?case
    by (simp add: add.assoc)
qed

lemma scan_step_quiet:
  assumes "0 < brace_level st + brace_depth [c]"
  shows "\<exists>st'. scan_step loads content st (i, c) = Inr st' \<and> json_blocks st' = json_blocks st"
  using assms by (auto simp: scan_step_def Let_def)

lemma scan_open_quiet:
  assumes "stays_open (brace_level st) cs"
  shows "\<exists>st'. scan_from loads content st (enumerate k cs) = Inr st' \<and>
           json_blocks st' = json_blocks st"
proof (cases cs)
  case Nil
  then show ?thesis by simp
next
  case (Cons c cs')
  with assms have pos: "0 < brace_level st + brace_depth [c]"
    and rest: "stays_open (brace_level st + brace_depth [c]) cs'"
    by simp_all
  from scan_step_quiet [OF pos] obtain st1
    where s1: "scan_step loads content st (k, c) = Inr st1"
      and b1: "json_blocks st1 = json_blocks st"
    by blast
  from scan_step_level [OF s1] have l1: "brace_level st1 = brace_level st + brace_depth [c]" .
  from scan_deep [of st1 cs' loads content "Suc k"] pos rest l1
  have "scan_from loads content st1 (enumerate (Suc k) cs')
          = Inr (st1\<lparr>brace_level := brace_level st1 + brace_depth cs'\<rparr>)"
    by simp
  with s1 b1 Cons show ?thesis
    by simp
qed

lemma scan_no_close_quiet:
  assumes "CHR ''}'' \<notin> set cs"
  shows "\<exists>st'. scan_from loads content st (enumerate k cs) = Inr st' \<and>
           json_blocks st' = json_blocks st"
  using assms
proof (induction cs arbitrary: st k)
  case Nil
  then show ?case by simp
next
  case (Cons c cs)
  from Cons.prems
  have "\<exists>st1. scan_step loads content st (k, c) = Inr st1 \<and> json_blocks st1 = json_blocks st"
    by (auto simp: scan_step_def)
  then obtain st1
    where s1: "scan_step loads content st (k, c) = Inr st1"
      and b1: "json_blocks st1 = json_blocks st"
    by blast
  from Cons.IH [of st1 "Suc k"] Cons.prems s1 b1 show ?case
    by auto
qed

text \<open>
  The text after the current index plays no part in a step, so the loop over a text
  \<open>pre @ suf\<close> first does what the loop over \<open>pre\<close> does.
\<close>

lemma scan_step_start:
  "scan_step loads content st (i, c) = Inr st' \<Longrightarrow> -1 \<le> start_idx st \<Longrightarrow> -1 \<le> start_idx st'"
  by (auto simp: scan_step_def Let_def split: sum.splits if_splits)

lemma py_slice_prefix:
  assumes "0 \<le> a" "i < length pre"
  shows "py_slice (pre @ suf) a (int i + 1) = py_slice pre a (int i + 1)"
proof -
  have hi: "slice_bound (length (pre @ suf)) (int i + 1) = Suc i"
    "slice_bound (length pre) (int i + 1) = Suc i"
    using assms by (auto simp: slice_bound_def)
  show ?thesis
  proof (cases "nat a \<le> length pre")
    case True
    then show ?thesis
      using assms hi by (simp add: py_slice_def slice_bound_def min_def)
  next
    case False
    then show ?thesis
      using assms hi by (simp add: py_slice_def slice_bound_def min_def)
  qed
qed

lemma scan_step_prefix:
  assumes "-1 \<le> start_idx st" "i < length pre"
  shows "scan_step loads (pre @ suf) st (i, c) = scan_step loads pre st (i, c)"
proof (cases "start_idx st = -1")
  case True
  then show ?thesis by (simp add: scan_step_def Let_def)
next
  case False
  with assms have "0 \<le> start_idx st" by simp
  from py_slice_prefix [OF this assms(2)] show ?thesis
    by (simp add: scan_step_def Let_def)
qed

lemma scan_prefix:
  assumes "-1 \<le> start_idx st" "k + length cs \<le> length pre"
  shows "scan_from loads (pre @ suf) st (enumerate k cs)
           = scan_from loads pre st (enumerate k cs)"
  using assms
proof (induction cs arbitrary: st k)
  case Nil
  then show ?case by simp
next
  case (Cons c cs)
  from Cons.prems have "k < length pre" by simp
  from scan_step_prefix [OF Cons.prems(1) this]
  have eq: "scan_step loads (pre @ suf) st (k, c) = scan_step loads pre st (k, c)" .
  show ?case
  proof (cases "scan_step loads pre st (k, c)")
    case (Inl e)
    with eq show ?thesis by simp
  next
    case (Inr st1)
    from scan_step_start [OF Inr Cons.prems(1)] Cons.prems(2)
    have "scan_from loads (pre @ suf) st1 (enumerate (Suc k) cs)
            = scan_from loads pre st1 (enumerate (Suc k) cs)"
      by (intro Cons.IH) simp_all
    with eq Inr show ?thesis by simp
  qed
qed

lemma scan_loop_append:
  "scan_loop loads (pre @ suf) =
     (case scan_loop loads pre of
        Inl e \<Rightarrow> Inl e
      | Inr st \<Rightarrow> scan_from loads (pre @ suf) st (enumerate (length pre) suf))"
proof -
  have "scan_from loads (pre @ suf) scan_init (enumerate 0 pre)
          = scan_from loads pre scan_init (enumerate 0 pre)"
    by (rule scan_prefix) (simp_all add: scan_init_def)
  then show ?thesis
    by (simp add: scan_loop_def enumerate_append_eq scan_from_append)
qed

lemma scan_loop_level: "scan_loop loads s = Inr st \<Longrightarrow> brace_level st = brace_depth s"
  using scan_level [of loads s scan_init 0 s st] by (simp add: scan_loop_def scan_init_def)

lemma extract_json_blocks_Nil: "extract_json_blocks loads [] = Inr []"
  by (simp add: extract_json_blocks_def scan_loop_def scan_init_def)

lemma parse_log_chunk_Nil: "parse_log_chunk loads now [] start_pos = Inr []"
  by (simp add: parse_log_chunk_def py_slice_from_def extract_json_blocks_Nil)

text \<open>Whether \<^verbatim>\<open>parse_log_chunk\<close> raises does not depend on the clock.\<close>

lemma parse_log_chunk_raise:
  "parse_log_chunk loads now content start_pos = Inl e \<Longrightarrow>
   parse_log_chunk loads now' content start_pos = Inl e"
  by (auto simp: parse_log_chunk_def Let_def split: sum.splits)

text \<open>
  One balanced block, read at level zero: the closing brace hands exactly the block's text
  to the decoder.
\<close>

lemma py_slice_middle:
  "py_slice (a @ blk @ b) (int (length a)) (int (length a + length blk)) = blk"
  by (simp add: py_slice_def slice_bound_def)

lemma scan_block:
  assumes lvl: "brace_level st = 0"
    and body: "stays_open 1 body" "brace_depth body = 0"
    and content: "content = a @ (CHR ''{'' # body @ [CHR ''}'']) @ b"
  shows "scan_from loads content st (enumerate (length a) (CHR ''{'' # body @ [CHR ''}'']))
         = (case loads (CHR ''{'' # body @ [CHR ''}'']) of
              Inr json_obj \<Rightarrow>
                Inr (st\<lparr>brace_level := 0, json_blocks := json_blocks st @ [json_obj],
                        start_idx := -1\<rparr>)
            | Inl e \<Rightarrow>
                if e = JSONDecodeError then Inr (st\<lparr>brace_level := 0, start_idx := -1\<rparr>)
                else Inl e)"
proof -
  let ?blk = "CHR ''{'' # body @ [CHR ''}'']"
  let ?st1 = "st\<lparr>start_idx := int (length a), brace_level := 1\<rparr>"
  have s1: "scan_step loads content st (length a, CHR ''{'') = Inr ?st1"
    using lvl by (simp add: scan_step_def)
  have s2: "scan_from loads content ?st1 (enumerate (Suc (length a)) body) = Inr ?st1"
    using scan_deep [of ?st1 body loads content "Suc (length a)"] body by simp
  have sl: "py_slice content (int (length a)) (int (Suc (length a) + length body) + 1) = ?blk"
    using py_slice_middle [of a ?blk b] content by (simp add: add.commute)
  have s3: "scan_step loads content ?st1 (Suc (length a) + length body, CHR ''}'')
         = (case loads ?blk of
              Inr json_obj \<Rightarrow>
                Inr (st\<lparr>brace_level := 0, json_blocks := json_blocks st @ [json_obj],
                        start_idx := -1\<rparr>)
            | Inl e \<Rightarrow>
                if e = JSONDecodeError then Inr (st\<lparr>brace_level := 0, start_idx := -1\<rparr>)
                else Inl e)"
    using sl by (simp add: scan_step_def Let_def split: sum.splits)
  show ?thesis
    using s1 s2 s3 by (simp add: enumerate_append_eq scan_from_append split: sum.splits)
qed

text \<open>
  What text free of JSON is made of: characters other than braces, and balanced blocks
  that the decoder rejects.
\<close>

lemma junk_text_body:
  assumes "0 < d" "stays_open d body"
  shows "junk_text loads d blk (body @ rest)
           = junk_text loads (d + brace_depth body) (blk @ body) rest"
  using assms
proof (induction body arbitrary: d blk)
  case Nil
  then show ?case by simp
next
  case (Cons c body)
  from Cons.prems have pos: "0 < d + brace_depth [c]"
    and rest: "stays_open (d + brace_depth [c]) body"
    by simp_all
  from Cons.IH [OF pos rest, of "blk @ [c]"] Cons.prems(1) pos show ?case
    by (simp add: add.assoc)
qed

lemma non_json_Nil: "non_json loads []"
  by (simp add: non_json_def)

lemma non_json_Char:
  "c \<noteq> CHR ''{'' \<Longrightarrow> c \<noteq> CHR ''}'' \<Longrightarrow> non_json loads t \<Longrightarrow> non_json loads (c # t)"
  by (simp add: non_json_def)

lemma non_json_Block:
  assumes "stays_open 1 body" "brace_depth body = 0"
    and "loads (CHR ''{'' # body @ [CHR ''}'']) = Inl JSONDecodeError"
    and "non_json loads t"
  shows "non_json loads ((CHR ''{'' # body @ [CHR ''}'']) @ t)"
proof -
  from junk_text_body [of 1 body loads "[CHR ''{'']" "CHR ''}'' # t"] assms(1,2)
  have "junk_text loads 1 [CHR ''{''] (body @ CHR ''}'' # t)
          = junk_text loads 1 (CHR ''{'' # body) (CHR ''}'' # t)"
    by simp
  with assms(3,4) show ?thesis
    by (simp add: non_json_def)
qed

lemma non_json_plain:
  "CHR ''{'' \<notin> set t \<Longrightarrow> CHR ''}'' \<notin> set t \<Longrightarrow> non_json loads t"
  by (induction t) (auto simp: non_json_Nil non_json_Char)

lemma junk_text_zero: "junk_text loads 0 blk u = junk_text loads 0 [] u"
  by (cases u) simp_all

lemma junk_text_append:
  "junk_text loads d blk t \<Longrightarrow> junk_text loads 0 [] u \<Longrightarrow> junk_text loads d blk (t @ u)"
proof (induction t arbitrary: d blk)
  case Nil
  then have "d = 0" by simp
  with Nil.prems(2) junk_text_zero [of loads blk u] show ?case by simp
next
  case (Cons c t)
  then show ?case by (auto split: if_splits)
qed

lemma non_json_append:
  "non_json loads t \<Longrightarrow> non_json loads u \<Longrightarrow> non_json loads (t @ u)"
  by (simp add: non_json_def junk_text_append)

text \<open>Text free of JSON, read at level zero, adds no block and comes back to level zero.\<close>

lemma scan_junk_text:
  assumes "junk_text loads d blk cs" "brace_level st = d" "0 \<le> d" "content = pre @ cs @ b"
    and "0 < d \<longrightarrow> (\<exists>a. pre = a @ blk \<and> start_idx st = int (length a))"
  shows "\<exists>st'. scan_from loads content st (enumerate (length pre) cs) = Inr st' \<and>
           brace_level st' = 0 \<and> json_blocks st' = json_blocks st"
  using assms
proof (induction cs arbitrary: d blk st pre)
  case Nil
  then show ?case by simp
next
  case (Cons c cs)
  have content: "content = (pre @ [c]) @ cs @ b"
    using Cons.prems(4) by simp
  show ?case
  proof (cases "d = 0")
    case True
    with Cons.prems(1) have nc: "c \<noteq> CHR ''}''"
      by (auto split: if_splits)
    show ?thesis
    proof (cases "c = CHR ''{''")
      case lbrace: True
      let ?st1 = "st\<lparr>start_idx := int (length pre), brace_level := 1\<rparr>"
      from True lbrace Cons.prems(2)
      have s1: "scan_step loads content st (length pre, c) = Inr ?st1"
        by (simp add: scan_step_def)
      from True lbrace Cons.prems(1) have j: "junk_text loads 1 [c] cs"
        by simp
      from Cons.IH [OF j, of ?st1 "pre @ [c]"] content
      obtain st' where "scan_from loads content ?st1 (enumerate (length (pre @ [c])) cs) = Inr st'"
        "brace_level st' = 0" "json_blocks st' = json_blocks st"
        by auto
      with s1 show ?thesis by simp
    next
      case False
      with nc have s1: "scan_step loads content st (length pre, c) = Inr st"
        by (simp add: scan_step_inert)
      from True False nc Cons.prems(1) have j: "junk_text loads 0 [] cs"
        by simp
      from Cons.IH [OF j, of st "pre @ [c]"] True Cons.prems(2) content
      obtain st' where "scan_from loads content st (enumerate (length (pre @ [c])) cs) = Inr st'"
        "brace_level st' = 0" "json_blocks st' = json_blocks st"
        by auto
      with s1 show ?thesis by simp
    qed
  next
    case False
    with Cons.prems(3) have pos: "0 < d" by simp
    with Cons.prems(5) obtain a where a: "pre = a @ blk" "start_idx st = int (length a)"
      by blast
    show ?thesis
    proof (cases "d + brace_depth [c] = 0")
      case True
      with pos have c: "c = CHR ''}''" and d: "d = 1"
        by (auto split: if_splits)
      let ?st1 = "st\<lparr>brace_level := 0, start_idx := -1\<rparr>"
      from False True Cons.prems(1)
      have rej: "loads (blk @ [c]) = Inl JSONDecodeError" and j: "junk_text loads 0 [] cs"
        by simp_all
      have "py_slice content (int (length a)) (int (length a + length (blk @ [c]))) = blk @ [c]"
        using py_slice_middle [of a "blk @ [c]" "cs @ b"] Cons.prems(4) a(1) by simp
      then have "py_slice content (start_idx st) (int (length pre) + 1) = blk @ [c]"
        using a by (simp add: add.commute add.left_commute)
      with c d rej a(2) Cons.prems(2)
      have s1: "scan_step loads content st (length pre, c) = Inr ?st1"
        by (simp add: scan_step_def Let_def)
      from Cons.IH [OF j, of ?st1 "pre @ [c]"] content
      obtain st' where "scan_from loads content ?st1 (enumerate (length (pre @ [c])) cs) = Inr st'"
        "brace_level st' = 0" "json_blocks st' = json_blocks st"
        by auto
      with s1 show ?thesis by simp
    next
      case nz: False
      with pos have pos': "0 < d + brace_depth [c]"
        by (auto split: if_splits)
      let ?st1 = "st\<lparr>brace_level := brace_level st + brace_depth [c]\<rparr>"
      from scan_step_deep [of st c loads content "length pre"] pos pos' Cons.prems(2)
      have s1: "scan_step loads content st (length pre, c) = Inr ?st1"
        by simp
      from False nz Cons.prems(1) have j: "junk_text loads (d + brace_depth [c]) (blk @ [c]) cs"
        by simp
      have "\<exists>a'. pre @ [c] = a' @ blk @ [c] \<and> start_idx ?st1 = int (length a')"
        using a by auto
      with Cons.IH [OF j, of ?st1 "pre @ [c]"] content pos' Cons.prems(2)
      obtain st' where "scan_from loads content ?st1 (enumerate (length (pre @ [c])) cs) = Inr st'"
        "brace_level st' = 0" "json_blocks st' = json_blocks st"
        by auto
      with s1 show ?thesis by simp
    qed
  qed
qed

lemma scan_non_json:
  assumes "non_json loads t" "brace_level st = 0" "content = a @ t @ b"
  shows "\<exists>st'. scan_from loads content st (enumerate (length a) t) = Inr st' \<and>
           brace_level st' = 0 \<and> json_blocks st' = json_blocks st"
  using scan_junk_text [of loads 0 "[]" t st content a b] assms
  by (simp add: non_json_def)

section \<open>Properties of extract_json_blocks\<close>

text \<open>
  C2, as the code has it. A buffer made of two objects that decode, each a balanced
  block (the object may hold nested objects), with text free of JSON before, between and
  after them (text without braces, or whose braces form balanced blocks that do not
  decode), yields exactly the two decoded objects, in their order in the buffer.
\<close>

theorem two_balanced_objects:
  assumes sep: "non_json loads t0" "non_json loads t1" "non_json loads t2"
    and bal: "stays_open 1 body1" "brace_depth body1 = 0"
      "stays_open 1 body2" "brace_depth body2 = 0"
    and wf: "loads (CHR ''{'' # body1 @ [CHR ''}'']) = Inr obj1"
      "loads (CHR ''{'' # body2 @ [CHR ''}'']) = Inr obj2"
  shows "extract_json_blocks loads
           (t0 @ (CHR ''{'' # body1 @ [CHR ''}'']) @ t1 @ (CHR ''{'' # body2 @ [CHR ''}'']) @ t2)
         = Inr [obj1, obj2]"
proof -
  let ?o1 = "CHR ''{'' # body1 @ [CHR ''}'']"
  let ?o2 = "CHR ''{'' # body2 @ [CHR ''}'']"
  let ?content = "t0 @ ?o1 @ t1 @ ?o2 @ t2"
  let ?scan = "scan_from loads ?content"
  from scan_non_json [OF sep(1), of scan_init ?content "[]" "?o1 @ t1 @ ?o2 @ t2"]
  obtain s0 where a: "?scan scan_init (enumerate 0 t0) = Inr s0"
    and a0: "brace_level s0 = 0" "json_blocks s0 = []"
    by (auto simp: scan_init_def)
  let ?s1 = "s0\<lparr>brace_level := 0, json_blocks := json_blocks s0 @ [obj1], start_idx := -1\<rparr>"
  from scan_block [OF a0(1) bal(1,2), of ?content t0 "t1 @ ?o2 @ t2" loads] wf(1)
  have b: "?scan s0 (enumerate (length t0) ?o1) = Inr ?s1"
    by simp
  from scan_non_json [OF sep(2), of ?s1 ?content "t0 @ ?o1" "?o2 @ t2"]
  obtain s2 where c: "?scan ?s1 (enumerate (length (t0 @ ?o1)) t1) = Inr s2"
    and c0: "brace_level s2 = 0" "json_blocks s2 = json_blocks ?s1"
    by auto
  let ?s3 = "s2\<lparr>brace_level := 0, json_blocks := json_blocks s2 @ [obj2], start_idx := -1\<rparr>"
  from scan_block [OF c0(1) bal(3,4), of ?content "t0 @ ?o1 @ t1" t2 loads] wf(2)
  have d: "?scan s2 (enumerate (length (t0 @ ?o1 @ t1)) ?o2) = Inr ?s3"
    by simp
  from scan_non_json [OF sep(3), of ?s3 ?content "t0 @ ?o1 @ t1 @ ?o2" "[]"]
  obtain s4 where e: "?scan ?s3 (enumerate (length (t0 @ ?o1 @ t1 @ ?o2)) t2) = Inr s4"
    and e0: "json_blocks s4 = json_blocks ?s3"
    by auto
  have "scan_loop loads ?content = ?scan s0 (enumerate (length t0) (?o1 @ t1 @ ?o2 @ t2))"
    using scan_from_chain [OF a, of "?o1 @ t1 @ ?o2 @ t2"] by (simp add: scan_loop_def)
  also have "\<dots> = ?scan ?s1 (enumerate (length (t0 @ ?o1)) (t1 @ ?o2 @ t2))"
    using scan_from_chain [OF b, of "t1 @ ?o2 @ t2"] by simp
  also have "\<dots> = ?scan s2 (enumerate (length (t0 @ ?o1 @ t1)) (?o2 @ t2))"
    using scan_from_chain [OF c, of "?o2 @ t2"] by (simp add: add.assoc)
  also have "\<dots> = ?scan ?s3 (enumerate (length (t0 @ ?o1 @ t1 @ ?o2)) t2)"
    using scan_from_chain [OF d, of t2] by (simp add: add.assoc)
  also have "\<dots> = Inr s4"
    by (rule e)
  finally show ?thesis
    using e0 c0(2) a0(2) by (simp add: extract_json_blocks_def)
qed

text \<open>The sample decoder on a short text: the table decides.\<close>

lemma length_big_int_object: "length big_int_object = 4308"
  by (simp add: big_int_object_def)

lemma example_loads_short:
  \<open>length s < 4308 \<Longrightarrow>
   example_loads s =
     (case map_of
        [(''{"a":1}'', [(''a'', PInt 1)]),
         (''{"b":2}'', [(''b'', PInt 2)]),
         (''{"mainDeck":[]}'', [(''mainDeck'', PList [])]),
         (''{"mainDeck":[{"cardId":1}]}'',
            [(''mainDeck'', PList [PDict [(''cardId'', PInt 1)]])]),
         (''{"name":"a}b"}'', [(''name'', PStr ''a}b'')])] s of
        Some json_obj \<Rightarrow> Inr json_obj
      | None \<Rightarrow> Inl JSONDecodeError)\<close>
  using length_big_int_object by (auto simp: example_loads_def)

text \<open>
  The object whose integer has 4301 digits, met at level zero: the decoder raises on it and
  the scan ends there, whatever follows.
\<close>

lemma big_int_raises:
  assumes p: "scan_loop example_loads p = Inr st" and lvl: "brace_level st = 0"
  shows "extract_json_blocks example_loads (p @ big_int_object @ rest) = Inl OtherException"
proof -
  define body where \<open>body = ''"id":'' @ replicate 4301 (CHR ''1'')\<close>
  let ?blk = "CHR ''{'' # body @ [CHR ''}'']"
  have big: "big_int_object = ?blk"
    by (simp add: body_def big_int_object_def)
  have body: "stays_open 1 body" "brace_depth body = 0"
    unfolding body_def by (simp_all add: brace_free_stays_open brace_free_depth)
  have raises: "example_loads ?blk = Inl OtherException"
    unfolding big [symmetric] by (simp add: example_loads_def)
  from scan_block [where st = st and body = body and a = p and b = rest
      and loads = example_loads and content = "p @ ?blk @ rest", OF lvl body refl] raises
  have "scan_from example_loads (p @ ?blk @ rest) st (enumerate (length p) ?blk)
          = Inl OtherException"
    by (simp only: sum.case py_exception.distinct if_False)
  then have "scan_from example_loads (p @ ?blk @ rest) st (enumerate (length p) (?blk @ rest))
          = Inl OtherException"
    by (rule scan_from_raise)
  with p scan_loop_append [of example_loads p "?blk @ rest"]
  have "scan_loop example_loads (p @ ?blk @ rest) = Inl OtherException"
    by (simp only: sum.case)
  then show ?thesis
    unfolding big by (simp only: extract_json_blocks_def sum.case)
qed

lemma big_int_first:
  "extract_json_blocks example_loads (big_int_object @ rest) = Inl OtherException"
  using big_int_raises [of "[]" scan_init rest] by (simp add: scan_loop_def scan_init_def)

lemma big_int_second:
  \<open>extract_json_blocks example_loads (''{"mainDeck":[]} '' @ big_int_object @ rest)
     = Inl OtherException\<close>
proof -
  have \<open>scan_loop example_loads ''{"mainDeck":[]} ''
          = Inr \<lparr>brace_level = 0, start_idx = -1, json_blocks = [[(''mainDeck'', PList [])]]\<rparr>\<close>
    by (simp add: example_loads_short scan_defs)
  then show ?thesis
    by (rule big_int_raises) simp
qed

theorem two_balanced_objects_witness:
  \<open>non_json example_loads ''[12:34] {state} '' \<and>
   non_json example_loads '' loaded '' \<and> non_json example_loads '' end'' \<and>
   stays_open 1 ''"mainDeck":[{"cardId":1}]'' \<and> brace_depth ''"mainDeck":[{"cardId":1}]'' = 0 \<and>
   stays_open 1 ''"b":2'' \<and> brace_depth ''"b":2'' = 0 \<and>
   example_loads ''{"mainDeck":[{"cardId":1}]}''
     = Inr [(''mainDeck'', PList [PDict [(''cardId'', PInt 1)]])] \<and>
   example_loads ''{"b":2}'' = Inr [(''b'', PInt 2)] \<and>
   extract_json_blocks example_loads
       ''[12:34] {state} {"mainDeck":[{"cardId":1}]} loaded {"b":2} end''
     = Inr [[(''mainDeck'', PList [PDict [(''cardId'', PInt 1)]])], [(''b'', PInt 2)]]\<close>
proof -
  have t0: \<open>non_json example_loads ''[12:34] {state} ''\<close>
    and t1: \<open>non_json example_loads '' loaded ''\<close> and t2: \<open>non_json example_loads '' end''\<close>
    by (simp_all add: non_json_def example_loads_short)
  have bal: \<open>stays_open 1 ''"mainDeck":[{"cardId":1}]''\<close>
    \<open>brace_depth ''"mainDeck":[{"cardId":1}]'' = 0\<close>
    \<open>stays_open 1 ''"b":2''\<close> \<open>brace_depth ''"b":2'' = 0\<close>
    by simp_all
  have wf: \<open>example_loads (CHR ''{'' # ''"mainDeck":[{"cardId":1}]'' @ [CHR ''}''])
              = Inr [(''mainDeck'', PList [PDict [(''cardId'', PInt 1)]])]\<close>
    \<open>example_loads (CHR ''{'' # ''"b":2'' @ [CHR ''}'']) = Inr [(''b'', PInt 2)]\<close>
    by (simp_all add: example_loads_short)
  from two_balanced_objects [OF t0 t1 t2 bal wf] t0 t1 t2 bal wf show ?thesis
    by simp
qed

text \<open>
  C2 as stated fails in three ways. A closing brace in the text before the objects takes
  the level below zero, where an opening brace no longer starts a block: no block is
  found at all. An object that holds an unmatched brace inside a string is cut at that
  brace. And on a well-formed object whose integer has more than 4300 digits the decoder
  raises \<^verbatim>\<open>ValueError\<close>, which ends the scan.
\<close>

theorem two_objects_counterexample:
  \<open>example_loads ''{"a":1}'' = Inr [(''a'', PInt 1)] \<and>
   example_loads ''{"b":2}'' = Inr [(''b'', PInt 2)] \<and>
   extract_json_blocks example_loads ''state } {"a":1} loaded {"b":2} end'' = Inr [] \<and>
   example_loads ''{"name":"a}b"}'' = Inr [(''name'', PStr ''a}b'')] \<and>
   extract_json_blocks example_loads ''{"name":"a}b"} loaded {"b":2}'' = Inr [] \<and>
   extract_json_blocks example_loads (big_int_object @ '' loaded {"b":2}'') = Inl OtherException\<close>
proof -
  have \<open>example_loads ''{"a":1}'' = Inr [(''a'', PInt 1)] \<and>
   example_loads ''{"b":2}'' = Inr [(''b'', PInt 2)] \<and>
   extract_json_blocks example_loads ''state } {"a":1} loaded {"b":2} end'' = Inr [] \<and>
   example_loads ''{"name":"a}b"}'' = Inr [(''name'', PStr ''a}b'')] \<and>
   extract_json_blocks example_loads ''{"name":"a}b"} loaded {"b":2}'' = Inr []\<close>
    by (simp add: example_loads_short scan_defs)
  with big_int_first [of \<open>'' loaded {"b":2}''\<close>] show ?thesis
    by (simp only: simp_thms)
qed

text \<open>
  C6, as the code has it. Let the buffer be \<open>pre @ frag\<close>, where the fragment \<open>frag\<close>
  opens an object that it never closes (its depth stays above zero after every
  character), and where the text before it has at least as many opening as closing
  braces or the fragment has no closing brace at all. Then the fragment adds no block,
  no deck and no exception to what \<open>pre\<close> alone gives. \<^verbatim>\<open>parse_file\<close> on a file with this
  content returns the decks of \<open>pre\<close> with the end of the file as the new offset, or, when
  the decoder raises on a block of \<open>pre\<close>, no deck and the offset it was given; it never
  raises.
\<close>

theorem unterminated_fragment:
  assumes "stays_open 0 frag" and "0 \<le> brace_depth pre \<or> CHR ''}'' \<notin> set frag"
  shows "extract_json_blocks loads (pre @ frag) = extract_json_blocks loads pre \<and>
         parse_log_chunk loads now (pre @ frag) 0 = parse_log_chunk loads now pre 0 \<and>
         (fs file_path = Inr (pre @ frag) \<longrightarrow>
            parse_file loads now io fs file_path 0 =
              (case parse_log_chunk loads now pre 0 of
                 Inr decks \<Rightarrow> (decks, int (length (pre @ frag)))
               | Inl e \<Rightarrow> ([], 0)))"
proof -
  have blocks: "extract_json_blocks loads (pre @ frag) = extract_json_blocks loads pre"
  proof (cases "scan_loop loads pre")
    case (Inl e)
    then show ?thesis
      by (simp add: extract_json_blocks_def scan_loop_append)
  next
    case (Inr st)
    have "\<exists>st'. scan_from loads (pre @ frag) st (enumerate (length pre) frag) = Inr st' \<and>
            json_blocks st' = json_blocks st"
    proof (cases "0 \<le> brace_depth pre")
      case True
      with assms(1) scan_loop_level [OF Inr] have "stays_open (brace_level st) frag"
        by (simp add: stays_open_mono)
      then show ?thesis by (rule scan_open_quiet)
    next
      case False
      with assms(2) have "CHR ''}'' \<notin> set frag" by simp
      then show ?thesis by (rule scan_no_close_quiet)
    qed
    with Inr show ?thesis
      by (auto simp: extract_json_blocks_def scan_loop_append)
  qed
  then have decks: "parse_log_chunk loads now (pre @ frag) 0 = parse_log_chunk loads now pre 0"
    by (simp add: parse_log_chunk_def py_slice_from_def slice_bound_def)
  have "read_from io (pre @ frag) 0 = Inr (pre @ frag, int (length (pre @ frag)))"
    by (simp add: read_from_def seekable_def)
  with decks blocks show ?thesis
    by (simp add: parse_file_def split: sum.splits)
qed

theorem unterminated_fragment_witness:
  \<open>stays_open 0 ''{"mainDeck":[{"cardId":1},'' \<and>
   0 \<le> brace_depth ''[12:34] {"mainDeck":[]} '' \<and>
   extract_json_blocks example_loads ''[12:34] {"mainDeck":[]} {"mainDeck":[{"cardId":1},''
     = Inr [[(''mainDeck'', PList [])]] \<and>
   stays_open 0 ''{"mainDeck":['' \<and> CHR ''}'' \<notin> set ''{"mainDeck":['' \<and>
   extract_json_blocks example_loads ''state } {"mainDeck":['' = Inr [] \<and>
   extract_json_blocks example_loads
       ((''{"mainDeck":[]} '' @ big_int_object @ '' '') @ ''{"mainDeck":['')
     = Inl OtherException \<and>
   parse_file example_loads ''12:34:56'' example_io
       (\<lambda>file_path. Inr ((''{"mainDeck":[]} '' @ big_int_object @ '' '') @ ''{"mainDeck":['')) ''Player.log'' 0
     = ([], 0)\<close>
proof -
  have f1: \<open>stays_open 0 ''{"mainDeck":[{"cardId":1},''\<close>
    and p1: \<open>0 \<le> brace_depth ''[12:34] {"mainDeck":[]} ''
             \<or> CHR ''}'' \<notin> set ''{"mainDeck":[{"cardId":1},''\<close>
    and f2: \<open>stays_open 0 ''{"mainDeck":[''\<close>
    and p2: \<open>0 \<le> brace_depth ''state } '' \<or> CHR ''}'' \<notin> set ''{"mainDeck":[''\<close>
    and p3: \<open>0 \<le> brace_depth (''{"mainDeck":[]} '' @ big_int_object @ '' '')
             \<or> CHR ''}'' \<notin> set ''{"mainDeck":[''\<close>
    by simp_all
  have pre1: \<open>extract_json_blocks example_loads ''[12:34] {"mainDeck":[]} ''
               = Inr [[(''mainDeck'', PList [])]]\<close>
    and pre2: \<open>extract_json_blocks example_loads ''state } '' = Inr []\<close>
    by (simp_all add: example_loads_short scan_defs)
  note big = unterminated_fragment [OF f2 p3, of example_loads \<open>''12:34:56''\<close>
      \<open>\<lambda>file_path. Inr ((''{"mainDeck":[]} '' @ big_int_object @ '' '') @ ''{"mainDeck":['')\<close>
      \<open>''Player.log''\<close> example_io]
  note raises = big_int_second [of "'' ''"]
  have chunk: \<open>parse_log_chunk example_loads ''12:34:56''
                 (''{"mainDeck":[]} '' @ big_int_object @ '' '') 0 = Inl OtherException\<close>
    using raises by (simp add: parse_log_chunk_def py_slice_from_def slice_bound_def)
  from unterminated_fragment [OF f1 p1, of example_loads]
    unterminated_fragment [OF f2 p2, of example_loads] big pre1 pre2 f1 f2 raises chunk
  show ?thesis
    by simp
qed

text \<open>
  C6 as stated fails when the level is below zero where the fragment starts, as it is
  after a stray closing brace: the opening brace of the fragment then only brings the
  level back to zero, and an object nested in the fragment is emitted as a block of its
  own and gives a deck. And the scan of a buffer that ends in a fragment does raise when
  the decoder raises on a complete object before the fragment.
\<close>

theorem unterminated_fragment_counterexample:
  \<open>stays_open 0 ''{"decks":[{"mainDeck":[]},'' \<and>
   extract_json_blocks example_loads ''}'' = Inr [] \<and>
   extract_json_blocks example_loads (''}'' @ ''{"decks":[{"mainDeck":[]},'')
     = Inr [[(''mainDeck'', PList [])]] \<and>
   parse_log_chunk example_loads ''12:34:56'' (''}'' @ ''{"decks":[{"mainDeck":[]},'') 0
     = Inr [[(''id'', PNone), (''name'', PStr ''Unnamed Deck''), (''format'', PStr ''unknown''),
         (''description'', PStr []), (''main_deck'', PList []), (''sideboard'', PList []),
         (''commander'', PList []), (''timestamp'', PStr ''12:34:56'')]] \<and>
   stays_open 0 ''{"mainDeck":['' \<and>
   extract_json_blocks example_loads (''{"mainDeck":[]} '' @ big_int_object @ '' {"mainDeck":['')
     = Inl OtherException\<close>
proof -
  have \<open>stays_open 0 ''{"decks":[{"mainDeck":[]},'' \<and>
   extract_json_blocks example_loads ''}'' = Inr [] \<and>
   extract_json_blocks example_loads (''}'' @ ''{"decks":[{"mainDeck":[]},'')
     = Inr [[(''mainDeck'', PList [])]] \<and>
   parse_log_chunk example_loads ''12:34:56'' (''}'' @ ''{"decks":[{"mainDeck":[]},'') 0
     = Inr [[(''id'', PNone), (''name'', PStr ''Unnamed Deck''), (''format'', PStr ''unknown''),
         (''description'', PStr []), (''main_deck'', PList []), (''sideboard'', PList []),
         (''commander'', PList []), (''timestamp'', PStr ''12:34:56'')]] \<and>
   stays_open 0 ''{"mainDeck":[''\<close>
    by (simp add: example_loads_short scan_defs parse_defs)
  with big_int_second [of \<open>'' {"mainDeck":[''\<close>] show ?thesis
    by (simp only: simp_thms)
qed

section \<open>Properties of parse_file\<close>

text \<open>
  After a read to the end of the file, the position that \<^verbatim>\<open>tell\<close> gives is a plain offset
  at or beyond the end: reading from it gives nothing and the same position.
\<close>

lemma read_from_end:
  assumes "seekable io content p"
  shows "read_from io content (max (int p) (int (length content)))
           = Inr ([], max (int p) (int (length content)))"
proof -
  let ?n = "max (int p) (int (length content))"
  have n: "nat ?n = max p (length content)" by simp
  from assms have "seekable io content (nat ?n)"
    unfolding n by (simp add: seekable_def)
  moreover have "drop (nat ?n) content = []"
    unfolding n by simp
  moreover have "\<not> ?n < 0" by simp
  ultimately show ?thesis
    by (simp only: read_from_def if_False if_True) simp
qed

lemma read_from_fixpoint:
  assumes "read_from io content cookie = Inr (rest, new_position)"
  shows "read_from io content new_position = Inr ([], new_position)"
proof (cases "seekable io content (nat cookie)")
  case True
  with assms have c: "0 \<le> cookie" and n: "new_position = max cookie (int (length content))"
    by (auto simp: read_from_def split: if_splits)
  from read_from_end [OF True] c n show ?thesis
    by simp
next
  case False
  let ?p = "nat (cookie mod 2 ^ 64)"
  from assms False have s: "seekable io content ?p"
    and n: "new_position = max (int ?p) (int (length content))"
    by (auto simp: read_from_def Let_def split: if_splits sum.splits)
  from read_from_end [OF s] n show ?thesis
    by simp
qed

text \<open>
  C1. If \<^verbatim>\<open>parse_file(path, offset)\<close> returns \<open>(decks, new_offset)\<close> and the file system
  does not change, then \<^verbatim>\<open>parse_file(path, new_offset)\<close> returns no deck and the same offset
  \<open>new_offset\<close>, whatever the file holds (and whatever the clock shows at the second call).
\<close>

theorem parse_file_idempotent:
  assumes "parse_file loads now io fs file_path from_position = (decks, new_offset)"
  shows "parse_file loads now' io fs file_path new_offset = ([], new_offset)"
proof (cases "fs file_path")
  case (Inl e)
  with assms show ?thesis
    by (auto simp: parse_file_def)
next
  case opened: (Inr file_text)
  show ?thesis
  proof (cases "read_from io file_text from_position")
    case (Inl e)
    with assms opened show ?thesis
      by (auto simp: parse_file_def)
  next
    case (Inr r)
    obtain content new_position where r: "r = (content, new_position)"
      by (cases r)
    show ?thesis
    proof (cases "parse_log_chunk loads now content 0")
      case (Inl e)
      from parse_log_chunk_raise [OF Inl]
      have "parse_log_chunk loads now' content 0 = Inl e" .
      with assms opened Inr r Inl show ?thesis
        by (auto simp: parse_file_def)
    next
      case chunk: (Inr ds)
      with assms opened Inr r have n: "new_offset = new_position"
        by (simp add: parse_file_def)
      from read_from_fixpoint [of io file_text from_position content new_position] Inr r
      have "read_from io file_text new_position = Inr ([], new_position)"
        by simp
      with opened n show ?thesis
        by (simp add: parse_file_def parse_log_chunk_Nil)
    qed
  qed
qed

theorem parse_file_idempotent_witness:
  \<open>parse_file example_loads ''12:34:56'' example_io example_fs ''Player.log'' 0 =
     ([[(''id'', PNone), (''name'', PStr ''Unnamed Deck''), (''format'', PStr ''unknown''),
        (''description'', PStr []), (''main_deck'', PList []), (''sideboard'', PList []),
        (''commander'', PList []), (''timestamp'', PStr ''12:34:56'')]], 30)
   \<and> parse_file example_loads ''12:35:00'' example_io example_fs ''Player.log'' 30 = ([], 30)
   \<and> parse_file example_loads ''12:34:56'' example_io example_fs ''Player.log'' (2 ^ 64) =
     ([[(''id'', PNone), (''name'', PStr ''Unnamed Deck''), (''format'', PStr ''unknown''),
        (''description'', PStr []), (''main_deck'', PList []), (''sideboard'', PList []),
        (''commander'', PList []), (''timestamp'', PStr ''12:34:56'')]], 30)\<close>
proof -
  have first: \<open>parse_file example_loads ''12:34:56'' example_io example_fs ''Player.log'' 0 =
     ([[(''id'', PNone), (''name'', PStr ''Unnamed Deck''), (''format'', PStr ''unknown''),
        (''description'', PStr []), (''main_deck'', PList []), (''sideboard'', PList []),
        (''commander'', PList []), (''timestamp'', PStr ''12:34:56'')]], 30)\<close>
    by (simp add: file_defs example_loads_short scan_defs parse_defs)
  have wrapped: \<open>parse_file example_loads ''12:34:56'' example_io example_fs ''Player.log'' (2 ^ 64) =
     ([[(''id'', PNone), (''name'', PStr ''Unnamed Deck''), (''format'', PStr ''unknown''),
        (''description'', PStr []), (''main_deck'', PList []), (''sideboard'', PList []),
        (''commander'', PList []), (''timestamp'', PStr ''12:34:56'')]], 30)\<close>
    by (simp add: file_defs example_loads_short scan_defs parse_defs)
  from parse_file_idempotent [OF first] first wrapped show ?thesis
    by simp
qed

text \<open>
  C7. When the file is missing, \<^verbatim>\<open>parse_file(file_path, from_position)\<close> does not raise: it
  returns no deck and the offset \<open>from_position\<close> it was given.
\<close>

theorem parse_file_missing:
  "fs file_path = Inl FileNotFoundError \<Longrightarrow>
   parse_file loads now io fs file_path from_position = ([], from_position)"
  by (simp add: parse_file_def)

theorem parse_file_missing_witness:
  \<open>example_fs ''Missing.log'' = Inl FileNotFoundError \<and>
   parse_file example_loads ''12:34:56'' example_io example_fs ''Missing.log'' 120 = ([], 120)\<close>
proof -
  have missing: \<open>example_fs ''Missing.log'' = Inl FileNotFoundError\<close>
    by (simp add: example_fs_def)
  from parse_file_missing [where fs = example_fs and file_path = "''Missing.log''", OF missing]
    missing
  show ?thesis
    by simp
qed

section \<open>Properties of the classifier and the expansion\<close>

text \<open>
  C10. A parsed object that has the key \<^verbatim>\<open>name\<close> and none of \<^verbatim>\<open>decks\<close>, \<^verbatim>\<open>mainDeck\<close>,
  \<^verbatim>\<open>mainBoard\<close> is deck data for \<^verbatim>\<open>is_deck_data\<close>, \<^verbatim>\<open>extract_decks\<close> returns the empty list
  for it, and it contributes no deck to the result.
\<close>

theorem name_only_object:
  assumes "py_in ''name'' json_obj" "\<not> py_in ''decks'' json_obj"
    "\<not> py_in ''mainDeck'' json_obj" "\<not> py_in ''mainBoard'' json_obj"
  shows "is_deck_data json_obj \<and> extract_decks json_obj = [] \<and>
         decks_of_block now json_obj = []"
  using assms
  by (simp add: is_deck_data_def deck_keys_def extract_decks_def decks_of_block_def py_in_def)

theorem name_only_object_witness:
  "py_in ''name'' [(''name'', PStr ''Elves''), (''sideboard'', PList [])] \<and>
   \<not> py_in ''decks'' [(''name'', PStr ''Elves''), (''sideboard'', PList [])] \<and>
   \<not> py_in ''mainDeck'' [(''name'', PStr ''Elves''), (''sideboard'', PList [])] \<and>
   \<not> py_in ''mainBoard'' [(''name'', PStr ''Elves''), (''sideboard'', PList [])] \<and>
   is_deck_data [(''name'', PStr ''Elves''), (''sideboard'', PList [])] \<and>
   extract_decks [(''name'', PStr ''Elves''), (''sideboard'', PList [])] = [] \<and>
   decks_of_block ''12:34:56'' [(''name'', PStr ''Elves''), (''sideboard'', PList [])] = []"
proof -
  have h: "py_in ''name'' [(''name'', PStr ''Elves''), (''sideboard'', PList [])]"
    "\<not> py_in ''decks'' [(''name'', PStr ''Elves''), (''sideboard'', PList [])]"
    "\<not> py_in ''mainDeck'' [(''name'', PStr ''Elves''), (''sideboard'', PList [])]"
    "\<not> py_in ''mainBoard'' [(''name'', PStr ''Elves''), (''sideboard'', PList [])]"
    by (simp_all add: py_in_def)
  from name_only_object [OF h, of "''12:34:56''"] h show ?thesis
    by simp
qed

section \<open>Properties of parse_deck_list\<close>

lemma parsed_deck_mem:
  "deck \<in> set (parsed_deck now raw) \<Longrightarrow> parse_deck_list now raw = Some deck"
  by (auto simp: parsed_deck_def split: option.splits if_splits)

lemma parse_deck_list_main_deck:
  "parse_deck_list now raw = Some deck \<Longrightarrow> \<exists>cards. map_of deck ''main_deck'' = Some (PList cards)"
  by (cases raw) auto

lemma parse_log_chunk_main_deck:
  assumes "parse_log_chunk loads now log_content start_pos = Inr decks" "deck \<in> set decks"
  shows "\<exists>cards. map_of deck ''main_deck'' = Some (PList cards)"
proof -
  from assms obtain json_obj where "deck \<in> set (decks_of_block now json_obj)"
    by (auto simp: parse_log_chunk_def Let_def split: sum.splits)
  then obtain raw where "deck \<in> set (parsed_deck now raw)"
    by (auto simp: decks_of_block_def split: if_splits)
  then show ?thesis
    by (intro parse_deck_list_main_deck parsed_deck_mem)
qed

text \<open>
  C3, as the code has it. Every deck that \<^verbatim>\<open>parse_log_chunk\<close> or \<^verbatim>\<open>parse_file\<close> returns has
  the key \<^verbatim>\<open>main_deck\<close>, holding a list (possibly empty); and a parsed object that has
  none of the keys \<^verbatim>\<open>decks\<close>, \<^verbatim>\<open>mainDeck\<close>, \<^verbatim>\<open>mainBoard\<close> gives no deck.
\<close>

theorem main_deck_present:
  "(parse_log_chunk loads now log_content start_pos = Inr decks \<and> deck \<in> set decks \<longrightarrow>
      (\<exists>cards. map_of deck ''main_deck'' = Some (PList cards))) \<and>
   (deck \<in> set (fst (parse_file loads now io fs file_path from_position)) \<longrightarrow>
      (\<exists>cards. map_of deck ''main_deck'' = Some (PList cards))) \<and>
   (\<not> py_in ''decks'' json_obj \<and> \<not> py_in ''mainDeck'' json_obj \<and>
    \<not> py_in ''mainBoard'' json_obj \<longrightarrow> decks_of_block now json_obj = [])"
proof (intro conjI impI)
  assume "parse_log_chunk loads now log_content start_pos = Inr decks \<and> deck \<in> set decks"
  then show "\<exists>cards. map_of deck ''main_deck'' = Some (PList cards)"
    by (blast intro: parse_log_chunk_main_deck)
next
  assume "deck \<in> set (fst (parse_file loads now io fs file_path from_position))"
  then obtain content ds where "parse_log_chunk loads now content 0 = Inr ds" "deck \<in> set ds"
    by (auto simp: parse_file_def split: sum.splits prod.splits)
  then show "\<exists>cards. map_of deck ''main_deck'' = Some (PList cards)"
    by (rule parse_log_chunk_main_deck)
next
  assume "\<not> py_in ''decks'' json_obj \<and> \<not> py_in ''mainDeck'' json_obj \<and>
    \<not> py_in ''mainBoard'' json_obj"
  then show "decks_of_block now json_obj = []"
    by (simp add: decks_of_block_def extract_decks_def py_in_def)
qed

theorem main_deck_present_witness:
  \<open>[(''id'', PNone), (''name'', PStr ''Unnamed Deck''), (''format'', PStr ''unknown''),
     (''description'', PStr []), (''main_deck'', PList []), (''sideboard'', PList []),
     (''commander'', PList []), (''timestamp'', PStr ''12:34:56'')]
     \<in> set (fst (parse_file example_loads ''12:34:56'' example_io example_fs ''Player.log'' 0)) \<and>
   (\<exists>cards. map_of
      [(''id'', PNone), (''name'', PStr ''Unnamed Deck''), (''format'', PStr ''unknown''),
       (''description'', PStr []), (''main_deck'', PList []), (''sideboard'', PList []),
       (''commander'', PList []), (''timestamp'', PStr ''12:34:56'')] ''main_deck''
      = Some (PList cards)) \<and>
   \<not> py_in ''decks'' [(''sideboard'', PList [])] \<and>
   \<not> py_in ''mainDeck'' [(''sideboard'', PList [])] \<and>
   \<not> py_in ''mainBoard'' [(''sideboard'', PList [])] \<and>
   decks_of_block ''12:34:56'' [(''sideboard'', PList [])] = []\<close>
proof -
  let ?deck = "[(''id'', PNone), (''name'', PStr ''Unnamed Deck''), (''format'', PStr ''unknown''),
     (''description'', PStr []), (''main_deck'', PList []), (''sideboard'', PList []),
     (''commander'', PList []), (''timestamp'', PStr ''12:34:56'')]"
  have mem: \<open>?deck \<in> set (fst (parse_file example_loads ''12:34:56'' example_io example_fs
      ''Player.log'' 0))\<close>
    by (simp add: file_defs example_loads_short scan_defs parse_defs)
  have keys: "\<not> py_in ''decks'' [(''sideboard'', PList [])] \<and>
      \<not> py_in ''mainDeck'' [(''sideboard'', PList [])] \<and>
      \<not> py_in ''mainBoard'' [(''sideboard'', PList [])]"
    by (simp add: py_in_def)
  from main_deck_present [where deck = ?deck and loads = example_loads and now = "''12:34:56''"
      and io = example_io and fs = example_fs and file_path = "''Player.log''"
      and from_position = 0 and json_obj = "[(''sideboard'', PList [])]"] mem keys
  show ?thesis
    by blast
qed

text \<open>
  C3 as stated fails for an object that carries its decks under \<^verbatim>\<open>decks\<close>: neither the
  object nor the raw deck in it has a main deck key, and a deck is produced.
\<close>

theorem main_deck_key_counterexample:
  "\<not> py_in ''mainDeck'' [(''decks'', PList [PDict [(''name'', PStr ''Elves'')]])] \<and>
   \<not> py_in ''mainBoard'' [(''decks'', PList [PDict [(''name'', PStr ''Elves'')]])] \<and>
   \<not> py_in ''mainDeck'' [(''name'', PStr ''Elves'')] \<and>
   \<not> py_in ''mainBoard'' [(''name'', PStr ''Elves'')] \<and>
   decks_of_block ''12:34:56'' [(''decks'', PList [PDict [(''name'', PStr ''Elves'')]])] =
     [[(''id'', PNone), (''name'', PStr ''Elves''), (''format'', PStr ''unknown''),
       (''description'', PStr []), (''main_deck'', PList []), (''sideboard'', PList []),
       (''commander'', PList []), (''timestamp'', PStr ''12:34:56'')]]"
  by (simp add: parse_defs)

text \<open>
  C4, as the code has it. Each field is the first candidate whose value is true for
  Python (not \<^verbatim>\<open>None\<close>, \<^verbatim>\<open>False\<close>, zero or empty), a missing key counting as \<^verbatim>\<open>None\<close>:
  \<^verbatim>\<open>id\<close> from \<^verbatim>\<open>id\<close>, then \<^verbatim>\<open>deckId\<close>, and otherwise whatever \<^verbatim>\<open>deckID\<close> holds;
  \<^verbatim>\<open>name\<close> from \<^verbatim>\<open>name\<close>, then \<^verbatim>\<open>deckName\<close>, then the placeholder; \<^verbatim>\<open>format\<close> from
  \<^verbatim>\<open>format\<close>, then the placeholder.
\<close>

theorem field_resolution:
  assumes "parse_deck_list now (PDict deck_data) = Some deck"
  shows "map_of deck ''id'' = Some
           (if truthy (py_get deck_data ''id'') then py_get deck_data ''id''
            else if truthy (py_get deck_data ''deckId'') then py_get deck_data ''deckId''
            else py_get deck_data ''deckID'') \<and>
         map_of deck ''name'' = Some
           (if truthy (py_get deck_data ''name'') then py_get deck_data ''name''
            else if truthy (py_get deck_data ''deckName'') then py_get deck_data ''deckName''
            else PStr ''Unnamed Deck'') \<and>
         map_of deck ''format'' = Some
           (if truthy (py_get deck_data ''format'') then py_get deck_data ''format''
            else PStr ''unknown'')"
  using assms by (auto simp: py_or_def)

theorem field_resolution_witness:
  "parse_deck_list ''12:34:56''
      (PDict [(''id'', PInt 0), (''deckId'', PStr ''d-2''), (''deckName'', PStr ''Elves''),
              (''format'', PStr []), (''mainBoard'', PList [])]) =
     Some [(''id'', PStr ''d-2''), (''name'', PStr ''Elves''), (''format'', PStr ''unknown''),
       (''description'', PStr []), (''main_deck'', PList []), (''sideboard'', PList []),
       (''commander'', PList []), (''timestamp'', PStr ''12:34:56'')] \<and>
   map_of [(''id'', PStr ''d-2''), (''name'', PStr ''Elves''), (''format'', PStr ''unknown''),
       (''description'', PStr []), (''main_deck'', PList []), (''sideboard'', PList []),
       (''commander'', PList []), (''timestamp'', PStr ''12:34:56'')] ''id''
     = Some (PStr ''d-2'')"
proof -
  have h: "parse_deck_list ''12:34:56''
      (PDict [(''id'', PInt 0), (''deckId'', PStr ''d-2''), (''deckName'', PStr ''Elves''),
              (''format'', PStr []), (''mainBoard'', PList [])]) =
     Some [(''id'', PStr ''d-2''), (''name'', PStr ''Elves''), (''format'', PStr ''unknown''),
       (''description'', PStr []), (''main_deck'', PList []), (''sideboard'', PList []),
       (''commander'', PList []), (''timestamp'', PStr ''12:34:56'')]"
    by (simp add: parse_defs)
  from field_resolution [OF h] h show ?thesis
    by (simp add: py_get_def)
qed

text \<open>
  C4 as stated fails when an earlier candidate key is present with an empty value: the
  raw deck has the key \<^verbatim>\<open>id\<close>, and the deck's id comes from \<^verbatim>\<open>deckId\<close>.
\<close>

theorem first_present_counterexample:
  "py_in ''id'' [(''id'', PStr []), (''deckId'', PStr ''d-2''), (''mainDeck'', PList [])] \<and>
   parse_deck_list ''12:34:56''
       (PDict [(''id'', PStr []), (''deckId'', PStr ''d-2''), (''mainDeck'', PList [])]) =
     Some [(''id'', PStr ''d-2''), (''name'', PStr ''Unnamed Deck''), (''format'', PStr ''unknown''),
       (''description'', PStr []), (''main_deck'', PList []), (''sideboard'', PList []),
       (''commander'', PList []), (''timestamp'', PStr ''12:34:56'')]"
  by (simp add: parse_defs)

lemma card_entries_map: "card_entries cards = map card_entry (mappings_of cards)"
  by (induction cards rule: card_entries.induct) auto

lemma card_section_map:
  "card_section deck_data key = map card_entry (mappings_of (entries_of deck_data key))"
proof (cases "map_of deck_data key")
  case None
  then show ?thesis by (simp add: card_section_def entries_of_def)
next
  case (Some v)
  then show ?thesis
    by (cases v) (simp_all add: card_section_def entries_of_def card_entries_map)
qed

lemma commander_section_map:
  "commander_section deck_data = map commander_entry (entries_of deck_data ''commandZoneGRPIds'')"
proof (cases "map_of deck_data ''commandZoneGRPIds''")
  case None
  then show ?thesis by (simp add: commander_section_def entries_of_def)
next
  case (Some v)
  then show ?thesis
    by (cases v) (simp_all add: commander_section_def entries_of_def)
qed

lemma quantity_of_card_entry:
  "quantity_of (card_entry src)
     = Some (case map_of src ''quantity'' of Some q \<Rightarrow> q | None \<Rightarrow> PInt 1)"
  by (simp add: card_entry_def py_get_default_def split: option.splits)

text \<open>
  C8, as the code has it. \<^verbatim>\<open>main_deck\<close> and \<^verbatim>\<open>sideboard\<close> hold one entry for each
  dictionary of the source list, in the order of the source list, and the quantity of
  the entry is that dictionary's value for \<^verbatim>\<open>quantity\<close>, whatever it is, when the key is
  there, and the integer 1 when it is not. \<^verbatim>\<open>commander\<close> holds one entry for each element
  of the source list, with quantity 1.
\<close>

theorem quantity_from_source:
  assumes "parse_deck_list now (PDict deck_data) = Some deck"
  shows "entries_of deck ''main_deck''
           = map card_entry (mappings_of (entries_of deck_data (main_key deck_data))) \<and>
         map quantity_of (entries_of deck ''main_deck'')
           = map (\<lambda>src. Some (case map_of src ''quantity'' of Some q \<Rightarrow> q | None \<Rightarrow> PInt 1))
               (mappings_of (entries_of deck_data (main_key deck_data))) \<and>
         entries_of deck ''sideboard''
           = map card_entry (mappings_of (entries_of deck_data ''sideboard'')) \<and>
         map quantity_of (entries_of deck ''sideboard'')
           = map (\<lambda>src. Some (case map_of src ''quantity'' of Some q \<Rightarrow> q | None \<Rightarrow> PInt 1))
               (mappings_of (entries_of deck_data ''sideboard'')) \<and>
         map quantity_of (entries_of deck ''commander'')
           = map (\<lambda>card_id. Some (PInt 1)) (entries_of deck_data ''commandZoneGRPIds'')"
proof -
  from assms have m: "entries_of deck ''main_deck'' = card_section deck_data (main_key deck_data)"
    and s: "entries_of deck ''sideboard'' = card_section deck_data ''sideboard''"
    and c: "entries_of deck ''commander'' = commander_section deck_data"
    by (auto simp: entries_of_def)
  have q: "map quantity_of (map card_entry srcs)
             = map (\<lambda>src. Some (case map_of src ''quantity'' of Some q \<Rightarrow> q | None \<Rightarrow> PInt 1)) srcs"
    for srcs
    by (simp add: quantity_of_card_entry)
  have k: "map quantity_of (map commander_entry ids) = map (\<lambda>card_id. Some (PInt 1)) ids"
    for ids
    by (simp add: commander_entry_def)
  show ?thesis
    unfolding m s c card_section_map commander_section_map q k by simp
qed

theorem quantity_from_source_witness:
  "parse_deck_list ''12:34:56''
      (PDict [(''mainDeck'', PList [PDict [(''cardId'', PInt 70001), (''quantity'', PInt 4)],
                                    PStr ''not a card'',
                                    PDict [(''cardId'', PInt 70002)]]),
              (''commandZoneGRPIds'', PList [PInt 70003])]) =
     Some [(''id'', PNone), (''name'', PStr ''Unnamed Deck''), (''format'', PStr ''unknown''),
       (''description'', PStr []),
       (''main_deck'', PList [PDict [(''card_id'', PInt 70001), (''quantity'', PInt 4),
                                     (''name'', PStr ''Unknown'')],
                              PDict [(''card_id'', PInt 70002), (''quantity'', PInt 1),
                                     (''name'', PStr ''Unknown'')]]),
       (''sideboard'', PList []),
       (''commander'', PList [PDict [(''card_id'', PInt 70003), (''quantity'', PInt 1),
                                     (''name'', PStr ''Unknown'')]]),
       (''timestamp'', PStr ''12:34:56'')] \<and>
   map quantity_of (entries_of
       [(''id'', PNone), (''name'', PStr ''Unnamed Deck''), (''format'', PStr ''unknown''),
       (''description'', PStr []),
       (''main_deck'', PList [PDict [(''card_id'', PInt 70001), (''quantity'', PInt 4),
                                     (''name'', PStr ''Unknown'')],
                              PDict [(''card_id'', PInt 70002), (''quantity'', PInt 1),
                                     (''name'', PStr ''Unknown'')]]),
       (''sideboard'', PList []),
       (''commander'', PList [PDict [(''card_id'', PInt 70003), (''quantity'', PInt 1),
                                     (''name'', PStr ''Unknown'')]]),
       (''timestamp'', PStr ''12:34:56'')] ''main_deck'')
     = map (\<lambda>src. Some (case map_of src ''quantity'' of Some q \<Rightarrow> q | None \<Rightarrow> PInt 1))
         (mappings_of (entries_of
            [(''mainDeck'', PList [PDict [(''cardId'', PInt 70001), (''quantity'', PInt 4)],
                                    PStr ''not a card'',
                                    PDict [(''cardId'', PInt 70002)]]),
             (''commandZoneGRPIds'', PList [PInt 70003])] ''mainDeck'')) \<and>
   map (\<lambda>src. Some (case map_of src ''quantity'' of Some q \<Rightarrow> q | None \<Rightarrow> PInt 1))
         (mappings_of (entries_of
            [(''mainDeck'', PList [PDict [(''cardId'', PInt 70001), (''quantity'', PInt 4)],
                                    PStr ''not a card'',
                                    PDict [(''cardId'', PInt 70002)]]),
             (''commandZoneGRPIds'', PList [PInt 70003])] ''mainDeck''))
     = [Some (PInt 4), Some (PInt 1)]"
proof -
  let ?raw = "[(''mainDeck'', PList [PDict [(''cardId'', PInt 70001), (''quantity'', PInt 4)],
                                    PStr ''not a card'',
                                    PDict [(''cardId'', PInt 70002)]]),
               (''commandZoneGRPIds'', PList [PInt 70003])]"
  let ?deck = "[(''id'', PNone), (''name'', PStr ''Unnamed Deck''), (''format'', PStr ''unknown''),
       (''description'', PStr []),
       (''main_deck'', PList [PDict [(''card_id'', PInt 70001), (''quantity'', PInt 4),
                                     (''name'', PStr ''Unknown'')],
                              PDict [(''card_id'', PInt 70002), (''quantity'', PInt 1),
                                     (''name'', PStr ''Unknown'')]]),
       (''sideboard'', PList []),
       (''commander'', PList [PDict [(''card_id'', PInt 70003), (''quantity'', PInt 1),
                                     (''name'', PStr ''Unknown'')]]),
       (''timestamp'', PStr ''12:34:56'')]"
  have h: "parse_deck_list ''12:34:56'' (PDict ?raw) = Some ?deck"
    by (simp add: parse_defs)
  have key: "main_key ?raw = ''mainDeck''"
    by (simp add: main_key_def py_in_def)
  have src: "map (\<lambda>src. Some (case map_of src ''quantity'' of Some q \<Rightarrow> q | None \<Rightarrow> PInt 1))
         (mappings_of (entries_of ?raw ''mainDeck'')) = [Some (PInt 4), Some (PInt 1)]"
    by (simp add: entries_of_def)
  from quantity_from_source [OF h] have
    "map quantity_of (entries_of ?deck ''main_deck'')
       = map (\<lambda>src. Some (case map_of src ''quantity'' of Some q \<Rightarrow> q | None \<Rightarrow> PInt 1))
           (mappings_of (entries_of ?raw (main_key ?raw)))"
    by blast
  with h key src show ?thesis
    by (simp only: simp_thms)
qed

text \<open>
  C8 as stated fails for a source card whose quantity is not a positive integer: the
  value is copied as it is.
\<close>

theorem positive_quantity_counterexample:
  "parse_deck_list ''12:34:56''
      (PDict [(''mainDeck'', PList [PDict [(''cardId'', PInt 70001), (''quantity'', PInt 0)]])]) =
     Some [(''id'', PNone), (''name'', PStr ''Unnamed Deck''), (''format'', PStr ''unknown''),
       (''description'', PStr []),
       (''main_deck'', PList [PDict [(''card_id'', PInt 70001), (''quantity'', PInt 0),
                                     (''name'', PStr ''Unknown'')]]),
       (''sideboard'', PList []), (''commander'', PList []), (''timestamp'', PStr ''12:34:56'')] \<and>
   \<not> (0::int) < 0"
  by (simp add: parse_defs)

text \<open>
  C9, as the code has it. The deck's id is \<^verbatim>\<open>None\<close> when the raw deck has none of the
  keys \<^verbatim>\<open>id\<close>, \<^verbatim>\<open>deckId\<close>, \<^verbatim>\<open>deckID\<close>. It is a (non-empty) string when the raw deck has
  one of them and each of them that it has holds a non-empty string.
\<close>

theorem id_resolution:
  assumes "parse_deck_list now (PDict deck_data) = Some deck"
  shows "(\<not> py_in ''id'' deck_data \<and> \<not> py_in ''deckId'' deck_data \<and> \<not> py_in ''deckID'' deck_data
            \<longrightarrow> map_of deck ''id'' = Some PNone) \<and>
         ((py_in ''id'' deck_data \<or> py_in ''deckId'' deck_data \<or> py_in ''deckID'' deck_data) \<and>
          (\<forall>key \<in> {''id'', ''deckId'', ''deckID''}. \<forall>v. map_of deck_data key = Some v \<longrightarrow>
               (\<exists>s. v = PStr s \<and> s \<noteq> []))
            \<longrightarrow> (\<exists>s. map_of deck ''id'' = Some (PStr s) \<and> s \<noteq> []))"
  using assms by (auto simp: py_or_def py_get_def py_in_def split: option.splits)

theorem id_resolution_witness:
  "parse_deck_list ''12:34:56'' (PDict [(''name'', PStr ''Elves''), (''mainDeck'', PList [])]) =
     Some [(''id'', PNone), (''name'', PStr ''Elves''), (''format'', PStr ''unknown''),
       (''description'', PStr []), (''main_deck'', PList []), (''sideboard'', PList []),
       (''commander'', PList []), (''timestamp'', PStr ''12:34:56'')] \<and>
   \<not> py_in ''id'' [(''name'', PStr ''Elves''), (''mainDeck'', PList [])] \<and>
   \<not> py_in ''deckId'' [(''name'', PStr ''Elves''), (''mainDeck'', PList [])] \<and>
   \<not> py_in ''deckID'' [(''name'', PStr ''Elves''), (''mainDeck'', PList [])] \<and>
   map_of [(''id'', PNone), (''name'', PStr ''Elves''), (''format'', PStr ''unknown''),
       (''description'', PStr []), (''main_deck'', PList []), (''sideboard'', PList []),
       (''commander'', PList []), (''timestamp'', PStr ''12:34:56'')] ''id'' = Some PNone"
proof -
  have h: "parse_deck_list ''12:34:56'' (PDict [(''name'', PStr ''Elves''), (''mainDeck'', PList [])]) =
     Some [(''id'', PNone), (''name'', PStr ''Elves''), (''format'', PStr ''unknown''),
       (''description'', PStr []), (''main_deck'', PList []), (''sideboard'', PList []),
       (''commander'', PList []), (''timestamp'', PStr ''12:34:56'')]"
    by (simp add: parse_defs)
  have keys: "\<not> py_in ''id'' [(''name'', PStr ''Elves''), (''mainDeck'', PList [])] \<and>
      \<not> py_in ''deckId'' [(''name'', PStr ''Elves''), (''mainDeck'', PList [])] \<and>
      \<not> py_in ''deckID'' [(''name'', PStr ''Elves''), (''mainDeck'', PList [])]"
    by (simp add: py_in_def)
  from id_resolution [OF h] keys h show ?thesis
    by blast
qed

text \<open>
  C9 as stated fails for a raw deck without an identifying field: the id is \<^verbatim>\<open>None\<close>, not
  the empty string. (With \<^verbatim>\<open>"id": 7\<close> it is the integer 7.)
\<close>

theorem id_string_counterexample:
  "\<not> py_in ''id'' [(''name'', PStr ''Elves''), (''mainDeck'', PList [])] \<and>
   \<not> py_in ''deckId'' [(''name'', PStr ''Elves''), (''mainDeck'', PList [])] \<and>
   \<not> py_in ''deckID'' [(''name'', PStr ''Elves''), (''mainDeck'', PList [])] \<and>
   parse_deck_list ''12:34:56'' (PDict [(''name'', PStr ''Elves''), (''mainDeck'', PList [])]) =
     Some [(''id'', PNone), (''name'', PStr ''Elves''), (''format'', PStr ''unknown''),
       (''description'', PStr []), (''main_deck'', PList []), (''sideboard'', PList []),
       (''commander'', PList []), (''timestamp'', PStr ''12:34:56'')] \<and>
   PNone \<noteq> PStr [] \<and>
   parse_deck_list ''12:34:56'' (PDict [(''id'', PInt 7), (''mainDeck'', PList [])]) =
     Some [(''id'', PInt 7), (''name'', PStr ''Unnamed Deck''), (''format'', PStr ''unknown''),
       (''description'', PStr []), (''main_deck'', PList []), (''sideboard'', PList []),
       (''commander'', PList []), (''timestamp'', PStr ''12:34:56'')]"
  by (simp add: parse_defs)

section \<open>Properties of the daemon's fingerprint\<close>

text \<open>Every deck that \<^verbatim>\<open>parse_deck_list\<close> builds has the three keys the fingerprint reads.\<close>

lemma parse_deck_list_canonical:
  "parse_deck_list now raw = Some deck \<Longrightarrow>
   \<exists>i nm m. map_of deck ''id'' = Some i \<and> map_of deck ''name'' = Some nm \<and>
            map_of deck ''main_deck'' = Some (PList m)"
  by (cases raw) auto

lemma get_deck_id_canonical:
  assumes "map_of d ''id'' = Some i" "map_of d ''name'' = Some nm"
    "map_of d ''main_deck'' = Some (PList m)"
  shows "get_deck_id repr d =
           Some (py_str repr i @ ''_'' @ py_str repr nm @ ''_'' @ str_of_nat (length m))"
  using assms by (simp add: get_deck_id_def py_get_default_def)

lemma export_new_seen:
  assumes "get_deck_id repr deck = Some fp" "py_in ''name'' deck" "fp \<in> exported_decks st"
  shows "export_new repr st (deck # decks) = export_new repr st decks"
  using assms by simp

lemma export_new_records:
  assumes "get_deck_id repr deck = Some fp" "py_in ''name'' deck"
  shows "fp \<in> exported_decks (export_new repr st [deck])"
  using assms by simp

text \<open>
  C5. Two decks with the same id, the same name and main decks of the same length have
  the same fingerprint, whatever their cards are. Once the loop of \<^verbatim>\<open>process_log_file\<close> has
  been through the first, in whatever state, it passes over the second without
  exporting it or changing the state.
\<close>

theorem fingerprint_collision:
  assumes "map_of d1 ''id'' = Some i" "map_of d2 ''id'' = Some i"
    and "map_of d1 ''name'' = Some nm" "map_of d2 ''name'' = Some nm"
    and "map_of d1 ''main_deck'' = Some (PList m1)" "map_of d2 ''main_deck'' = Some (PList m2)"
    and "length m1 = length m2"
  shows "get_deck_id repr d1 = get_deck_id repr d2 \<and> get_deck_id repr d1 \<noteq> None \<and>
         export_new repr (export_new repr st [d1]) (d2 # decks)
           = export_new repr (export_new repr st [d1]) decks"
proof -
  let ?fp = "py_str repr i @ ''_'' @ py_str repr nm @ ''_'' @ str_of_nat (length m1)"
  have f1: "get_deck_id repr d1 = Some ?fp"
    using assms by (simp add: get_deck_id_canonical)
  have f2: "get_deck_id repr d2 = Some ?fp"
    using assms by (simp add: get_deck_id_canonical)
  have n1: "py_in ''name'' d1" and n2: "py_in ''name'' d2"
    using assms by (simp_all add: py_in_def)
  from export_new_seen [OF f2 n2 export_new_records [OF f1 n1]] f1 f2 show ?thesis
    by simp
qed

theorem fingerprint_collision_witness:
  "example_deck_a \<noteq> example_deck_b \<and>
   get_deck_id (\<lambda>v. []) example_deck_a = Some ''d1_Test_1'' \<and>
   get_deck_id (\<lambda>v. []) example_deck_b = Some ''d1_Test_1'' \<and>
   exported (export_new (\<lambda>v. []) daemon_init [example_deck_a]) = [example_deck_a] \<and>
   export_new (\<lambda>v. []) (export_new (\<lambda>v. []) daemon_init [example_deck_a]) [example_deck_b]
     = export_new (\<lambda>v. []) daemon_init [example_deck_a]"
proof -
  have a: "map_of example_deck_a ''id'' = Some (PStr ''d1'')"
    "map_of example_deck_a ''name'' = Some (PStr ''Test'')"
    "map_of example_deck_a ''main_deck'' =
       Some (PList [PDict [(''card_id'', PInt 70001), (''quantity'', PInt 4),
                           (''name'', PStr ''Forest'')]])"
    by (simp_all add: example_deck_a_def)
  have b: "map_of example_deck_b ''id'' = Some (PStr ''d1'')"
    "map_of example_deck_b ''name'' = Some (PStr ''Test'')"
    "map_of example_deck_b ''main_deck'' =
       Some (PList [PDict [(''card_id'', PInt 80001), (''quantity'', PInt 2),
                           (''name'', PStr ''Mountain'')]])"
    by (simp_all add: example_deck_b_def)
  have ne: "example_deck_a \<noteq> example_deck_b"
    by (simp add: example_deck_a_def example_deck_b_def)
  have fa: "get_deck_id (\<lambda>v. []) example_deck_a = Some ''d1_Test_1''"
    using a by (simp add: get_deck_id_canonical str_of_nat.simps)
  have ex: "exported (export_new (\<lambda>v. []) daemon_init [example_deck_a]) = [example_deck_a]"
    using fa a(2) by (simp add: daemon_init_def py_in_def)
  have len: "length [PDict [(''card_id'', PInt 70001), (''quantity'', PInt 4),
                            (''name'', PStr ''Forest'')]]
             = length [PDict [(''card_id'', PInt 80001), (''quantity'', PInt 2),
                              (''name'', PStr ''Mountain'')]]"
    by simp
  note c = fingerprint_collision [OF a(1) b(1) a(2) b(2) a(3) b(3) len,
      of "\<lambda>v. []" daemon_init "[]"]
  from c fa have fb: "get_deck_id (\<lambda>v. []) example_deck_b = Some ''d1_Test_1''"
    by simp
  from c have skip:
    "export_new (\<lambda>v. []) (export_new (\<lambda>v. []) daemon_init [example_deck_a]) [example_deck_b]
       = export_new (\<lambda>v. []) daemon_init [example_deck_a]"
    by (simp only: export_new.simps(1))
  from ne fa fb ex skip show ?thesis
    by blast
qed


end
